theory Spec2Isabelle
  imports Main "HOL-Library.Option_ord"
begin

section \<open>Tech events API: validation schemas and event service\<close>

text \<open>
  A shallow embedding of \<^verbatim>\<open>app/schemas/event.py\<close> and
  \<^verbatim>\<open>app/services/event_service.py\<close>.

  The collaborators that are not part of the repository are kept abstract or idealised:
  \<^item> the clock (\<^verbatim>\<open>datetime.now(UTC)\<close>) is an argument, one per read of the clock;
  \<^item> the \<^verbatim>\<open>bson\<close> identifier functions and the e-mail check of pydantic's
    \<^verbatim>\<open>EmailStr\<close> are arguments;
  \<^item> the MongoDB collection is a list of documents in insertion order; it stores the
    values it is given, a timestamp as its UTC instant, keeps the \<^verbatim>\<open>_id\<close> values
    unique, and holds integers of at most 8 bytes: the driver raises \<^verbatim>\<open>OverflowError\<close>
    for any other integer it is asked to send;
  \<^item> a string is a list of characters, each one of the code points U+0000 to U+00FF;
    trimming and lowercasing are those of Python on these code points.
\<close>

subsection \<open>Timestamps\<close>

text \<open>
  A Python \<^verbatim>\<open>datetime\<close>: the reading of the wall clock, counted in the store's time unit
  from the epoch, and the offset from UTC of its \<^verbatim>\<open>tzinfo\<close>, if it has one.
\<close>

record datetime =
  wall :: int
  tzinfo :: "int option"

text \<open>
  The instant a datetime denotes. An aware value is shifted by its offset; the driver
  and the validators both read a naive value as UTC.
\<close>

definition to_utc :: "datetime \<Rightarrow> int" where
  "to_utc v = (case tzinfo v of None \<Rightarrow> wall v | Some off \<Rightarrow> wall v - off)"

subsection \<open>Strings\<close>

text \<open>
  The code points below U+0100 that \<^verbatim>\<open>str.strip\<close> removes: tab to carriage return,
  the four separators U+001C to U+001F, the space, U+0085 and the no-break space U+00A0.
\<close>

definition isspace :: "char \<Rightarrow> bool" where
  "isspace c = (of_char c \<in> set [9, 10, 11, 12, 13, 28, 29, 30, 31, 32, 133, 160 :: nat])"

definition strip :: "string \<Rightarrow> string" where
  "strip s = rev (dropWhile isspace (rev (dropWhile isspace s)))"

text \<open>
  The code points below U+0100 that \<^verbatim>\<open>str.lower\<close> changes: the letters A to Z and
  U+00C0 to U+00DE without the multiplication sign U+00D7. Each moves up by 32.
\<close>

definition isupper :: "char \<Rightarrow> bool" where
  "isupper c =
     (let n = of_char c :: nat
      in (65 \<le> n \<and> n \<le> 90) \<or> (192 \<le> n \<and> n \<le> 222 \<and> n \<noteq> 215))"

definition lower_char :: "char \<Rightarrow> char" where
  "lower_char c = (if isupper c then char_of (of_char c + 32 :: nat) else c)"

definition lower :: "string \<Rightarrow> string" where
  "lower s = map lower_char s"

subsection \<open>Field validators of the schemas\<close>

datatype 'a checked = Invalid | Valid 'a

text \<open>
  \<^verbatim>\<open>date_not_in_past\<close> of \<^verbatim>\<open>EventCreate\<close>. The argument \<open>now\<close> is the instant read
  by \<^verbatim>\<open>datetime.now(UTC)\<close>; both sides of \<^verbatim>\<open>v < now\<close> are aware values, which Python
  compares by their instants. \<open>Invalid\<close> is the raised \<^verbatim>\<open>ValueError\<close>.
\<close>

definition date_not_in_past :: "int \<Rightarrow> datetime \<Rightarrow> datetime checked" where
  "date_not_in_past now v =
     (let v = (if tzinfo v = None then v\<lparr>tzinfo := Some 0\<rparr> else v)
      in if to_utc v < now then Invalid else Valid v)"

text \<open>
  \<^verbatim>\<open>validate_tags\<close> of \<^verbatim>\<open>EventCreate\<close>. \<^verbatim>\<open>list(set(xs))\<close> keeps one copy of each
  element in an order Python does not fix; \<open>remdups\<close> is one such order, and no theorem
  below depends on it.
\<close>

definition validate_tags :: "string list \<Rightarrow> string list" where
  "validate_tags v =
     (let cleaned_tags = [lower (strip tag). tag \<leftarrow> v, strip tag \<noteq> []]
      in remdups cleaned_tags)"

text \<open>The two validators of \<^verbatim>\<open>EventUpdate\<close>, which let \<^verbatim>\<open>None\<close> through.\<close>

definition EventUpdate_date_not_in_past :: "int \<Rightarrow> datetime option \<Rightarrow> datetime option checked" where
  "EventUpdate_date_not_in_past now v =
     (case v of
        None \<Rightarrow> Valid None
      | Some w \<Rightarrow>
          (let w = (if tzinfo w = None then w\<lparr>tzinfo := Some 0\<rparr> else w)
           in if to_utc w < now then Invalid else Valid (Some w)))"

definition EventUpdate_validate_tags :: "string list option \<Rightarrow> string list option" where
  "EventUpdate_validate_tags v =
     (case v of
        Some w \<Rightarrow>
          (let cleaned_tags = [lower (strip tag). tag \<leftarrow> w, strip tag \<noteq> []]
           in Some (remdups cleaned_tags))
      | None \<Rightarrow> None)"

text \<open>
  The constraints declared with \<^verbatim>\<open>Field(...)\<close>: \<^verbatim>\<open>min_length\<close> and \<^verbatim>\<open>max_length\<close> on
  a string, \<^verbatim>\<open>gt\<close> on an integer; a type \<^verbatim>\<open>T | None\<close> accepts \<^verbatim>\<open>None\<close> and checks
  any other value as a \<^verbatim>\<open>T\<close>.
\<close>

definition constrained_str :: "nat \<Rightarrow> nat option \<Rightarrow> string \<Rightarrow> string checked" where
  "constrained_str min_length max_length s =
     (if length s < min_length then Invalid
      else case max_length of
             None \<Rightarrow> Valid s
           | Some m \<Rightarrow> if m < length s then Invalid else Valid s)"

definition constrained_int_gt :: "int \<Rightarrow> int \<Rightarrow> int checked" where
  "constrained_int_gt gt n = (if gt < n then Valid n else Invalid)"

definition optional :: "('a \<Rightarrow> 'b checked) \<Rightarrow> 'a option \<Rightarrow> 'b option checked" where
  "optional chk v =
     (case v of
        None \<Rightarrow> Valid None
      | Some x \<Rightarrow> (case chk x of Invalid \<Rightarrow> Invalid | Valid y \<Rightarrow> Valid (Some y)))"

definition errors_of :: "string \<Rightarrow> 'a checked \<Rightarrow> string list" where
  "errors_of name r = (case r of Invalid \<Rightarrow> [name] | Valid _ \<Rightarrow> [])"

subsection \<open>The create schema\<close>

record EventCreate =
  title :: string
  description :: string
  date :: datetime
  location :: string
  organizer :: string
  tags :: "string list"
  capacity :: int

text \<open>
  Validation of a candidate whose fields have the declared types. \<open>email\<close> is the check
  behind \<^verbatim>\<open>EmailStr\<close>, which returns the normalised address. A failure lists the names
  of the offending fields.
\<close>

definition validate_EventCreate ::
  "int \<Rightarrow> (string \<Rightarrow> string checked) \<Rightarrow> EventCreate \<Rightarrow> string list + EventCreate" where
  "validate_EventCreate now email raw =
     (let r_title = constrained_str 1 (Some 200) (EventCreate.title raw);
          r_description = constrained_str 1 None (EventCreate.description raw);
          r_date = date_not_in_past now (EventCreate.date raw);
          r_location = constrained_str 1 (Some 200) (EventCreate.location raw);
          r_organizer = email (EventCreate.organizer raw);
          r_tags = Valid (validate_tags (EventCreate.tags raw));
          r_capacity = constrained_int_gt 0 (EventCreate.capacity raw)
      in case (r_title, r_description, r_date, r_location, r_organizer, r_tags, r_capacity) of
           (Valid t, Valid d, Valid dt, Valid l, Valid og, Valid tg, Valid c) \<Rightarrow>
             Inr \<lparr>EventCreate.title = t, EventCreate.description = d, EventCreate.date = dt,
                  EventCreate.location = l, EventCreate.organizer = og, EventCreate.tags = tg,
                  EventCreate.capacity = c\<rparr>
         | _ \<Rightarrow>
             Inl (errors_of ''title'' r_title @ errors_of ''description'' r_description @
                  errors_of ''date'' r_date @ errors_of ''location'' r_location @
                  errors_of ''organizer'' r_organizer @ errors_of ''tags'' r_tags @
                  errors_of ''capacity'' r_capacity))"

subsection \<open>The update schema\<close>

text \<open>
  A field of an update request: \<open>Unset\<close> when the request does not mention it (it is not
  in \<^verbatim>\<open>model_fields_set\<close>), \<open>Supplied None\<close> when the request gives it as null,
  \<open>Supplied (Some v)\<close> when it gives a value.
\<close>

datatype 'a field = Unset | Supplied "'a option"

record EventUpdate =
  title :: "string field"
  description :: "string field"
  date :: "datetime field"
  location :: "string field"
  organizer :: "string field"
  tags :: "string list field"
  capacity :: "int field"
  is_active :: "bool field"

definition supplied :: "('a option \<Rightarrow> 'b option checked) \<Rightarrow> 'a field \<Rightarrow> 'b field checked" where
  "supplied chk f =
     (case f of
        Unset \<Rightarrow> Valid Unset
      | Supplied v \<Rightarrow> (case chk v of Invalid \<Rightarrow> Invalid | Valid w \<Rightarrow> Valid (Supplied w)))"

definition validate_EventUpdate ::
  "int \<Rightarrow> (string \<Rightarrow> string checked) \<Rightarrow> EventUpdate \<Rightarrow> string list + EventUpdate" where
  "validate_EventUpdate now email raw =
     (let r_title = supplied (optional (constrained_str 1 (Some 200))) (EventUpdate.title raw);
          r_description = supplied (optional (constrained_str 1 None)) (EventUpdate.description raw);
          r_date = supplied (EventUpdate_date_not_in_past now) (EventUpdate.date raw);
          r_location = supplied (optional (constrained_str 1 (Some 200))) (EventUpdate.location raw);
          r_organizer = supplied (optional email) (EventUpdate.organizer raw);
          r_tags = supplied (\<lambda>v. Valid (EventUpdate_validate_tags v)) (EventUpdate.tags raw);
          r_capacity = supplied (optional (constrained_int_gt 0)) (EventUpdate.capacity raw);
          r_is_active = supplied Valid (EventUpdate.is_active raw)
      in case (r_title, r_description, r_date, r_location, r_organizer, r_tags, r_capacity,
               r_is_active) of
           (Valid t, Valid d, Valid dt, Valid l, Valid og, Valid tg, Valid c, Valid a) \<Rightarrow>
             Inr \<lparr>EventUpdate.title = t, EventUpdate.description = d, EventUpdate.date = dt,
                  EventUpdate.location = l, EventUpdate.organizer = og, EventUpdate.tags = tg,
                  EventUpdate.capacity = c, EventUpdate.is_active = a\<rparr>
         | _ \<Rightarrow>
             Inl (errors_of ''title'' r_title @ errors_of ''description'' r_description @
                  errors_of ''date'' r_date @ errors_of ''location'' r_location @
                  errors_of ''organizer'' r_organizer @ errors_of ''tags'' r_tags @
                  errors_of ''capacity'' r_capacity @ errors_of ''is_active'' r_is_active))"

subsection \<open>The document store\<close>

text \<open>
  The identifier functions of \<^verbatim>\<open>bson\<close>: \<^verbatim>\<open>ObjectId.is_valid\<close>, the constructor
  \<^verbatim>\<open>ObjectId(s)\<close> and \<^verbatim>\<open>str(oid)\<close>, over a type \<open>'i\<close> of identifiers.
\<close>

record 'i bson =
  is_valid :: "string \<Rightarrow> bool"
  ObjectId :: "string \<Rightarrow> 'i"
  str :: "'i \<Rightarrow> string"

text \<open>
  A stored event. An update can write null into any field of the update schema, so
  these fields are optional; \<open>doc_id\<close> is the key \<^verbatim>\<open>_id\<close>.
\<close>

record 'i document =
  doc_id :: 'i
  title :: "string option"
  description :: "string option"
  date :: "int option"
  location :: "string option"
  organizer :: "string option"
  tags :: "string list option"
  capacity :: "int option"
  is_active :: "bool option"
  created_at :: int
  updated_at :: int

type_synonym 'i collection = "'i document list"

datatype error =
    InvalidIdentifier
  | NotFound
  | Conflict
  | DuplicateKeyError
  | ValueError
  | OverflowError

text \<open>
  The first three are the \<^verbatim>\<open>HTTPException\<close>s the service raises, told apart by
  status and detail; the last three come from the driver.
\<close>

fun status_code :: "error \<Rightarrow> nat" where
  "status_code InvalidIdentifier = 400"
| "status_code NotFound = 404"
| "status_code Conflict = 400"
| "status_code DuplicateKeyError = 500"
| "status_code ValueError = 500"
| "status_code OverflowError = 500"

text \<open>
  The integers the driver can encode: those of at most 8 bytes. The only integers of a
  document that come from a request are its capacity and, in a query, the skip and the
  limit; a timestamp comes from a Python \<^verbatim>\<open>datetime\<close>, whose range fits.
\<close>

definition int64 :: "int \<Rightarrow> bool" where
  "int64 n = (- (2 ^ 63) \<le> n \<and> n < 2 ^ 63)"

definition encodable :: "int option \<Rightarrow> bool" where
  "encodable v = (case v of None \<Rightarrow> True | Some n \<Rightarrow> int64 n)"

definition find_one :: "('i document \<Rightarrow> bool) \<Rightarrow> 'i collection \<Rightarrow> 'i document option" where
  "find_one query c = List.find query c"

definition count_documents :: "('i document \<Rightarrow> bool) \<Rightarrow> 'i collection \<Rightarrow> nat" where
  "count_documents query c = length (filter query c)"

definition insert_one :: "'i document \<Rightarrow> 'i collection \<Rightarrow> error + 'i collection" where
  "insert_one doc c =
     (if \<not> encodable (document.capacity doc) then Inl OverflowError
      else if doc_id doc \<in> doc_id ` set c then Inl DuplicateKeyError
      else Inr (c @ [doc]))"

text \<open>
  \<^verbatim>\<open>update_one\<close> changes the first document that matches and returns the collection
  with \<^verbatim>\<open>modified_count\<close>, which counts a document only if the update changed it.
\<close>

fun update_one ::
  "('i document \<Rightarrow> bool) \<Rightarrow> ('i document \<Rightarrow> 'i document) \<Rightarrow> 'i collection \<Rightarrow> 'i collection \<times> nat" where
  "update_one query upd [] = ([], 0)"
| "update_one query upd (d # ds) =
     (if query d then (upd d # ds, if upd d = d then 0 else 1)
      else (case update_one query upd ds of (ds', n) \<Rightarrow> (d # ds', n)))"

subsection \<open>The event service\<close>

definition event_helper :: "'i bson \<Rightarrow> 'i document option \<Rightarrow> string document option" where
  "event_helper B event =
     (case event of
        None \<Rightarrow> None
      | Some e \<Rightarrow>
          Some \<lparr>doc_id = str B (doc_id e), document.title = document.title e,
                document.description = document.description e, document.date = document.date e,
                document.location = document.location e,
                document.organizer = document.organizer e, document.tags = document.tags e,
                document.capacity = document.capacity e,
                document.is_active = document.is_active e, created_at = created_at e,
                updated_at = updated_at e\<rparr>)"

text \<open>
  \<^verbatim>\<open>create_event\<close>. \<open>new_id\<close> is the identifier the driver generates for the insert,
  \<open>t_created\<close> and \<open>t_updated\<close> are the two reads of the clock. The result is paired with
  the collection after the call.
\<close>

definition create_event ::
  "'i bson \<Rightarrow> 'i \<Rightarrow> int \<Rightarrow> int \<Rightarrow> 'i collection \<Rightarrow> EventCreate \<Rightarrow>
     (error + string document option) \<times> 'i collection" where
  "create_event B new_id t_created t_updated c event =
     (case find_one (\<lambda>d. document.title d = Some (EventCreate.title event) \<and>
                         document.date d = Some (to_utc (EventCreate.date event)) \<and>
                         document.is_active d = Some True) c of
        Some existing \<Rightarrow> (Inl Conflict, c)
      | None \<Rightarrow>
          (let event_dict =
                 \<lparr>doc_id = new_id,
                  document.title = Some (EventCreate.title event),
                  document.description = Some (EventCreate.description event),
                  document.date = Some (to_utc (EventCreate.date event)),
                  document.location = Some (EventCreate.location event),
                  document.organizer = Some (EventCreate.organizer event),
                  document.tags = Some (EventCreate.tags event),
                  document.capacity = Some (EventCreate.capacity event),
                  document.is_active = Some True,
                  created_at = t_created,
                  updated_at = t_updated\<rparr>
           in case insert_one event_dict c of
                Inl e \<Rightarrow> (Inl e, c)
              | Inr c' \<Rightarrow> (Inr (event_helper B (find_one (\<lambda>d. doc_id d = new_id) c')), c')))"

text \<open>The filter that \<^verbatim>\<open>get_events\<close> builds from its arguments.\<close>

definition list_query ::
  "datetime option \<Rightarrow> datetime option \<Rightarrow> string list option \<Rightarrow> 'i document \<Rightarrow> bool" where
  "list_query date_from date_to tags' d =
     (document.is_active d = Some True \<and>
      (if date_from \<noteq> None \<or> date_to \<noteq> None then
         (case document.date d of
            None \<Rightarrow> False
          | Some t \<Rightarrow>
              (case date_from of None \<Rightarrow> True | Some f \<Rightarrow> to_utc f \<le> t) \<and>
              (case date_to of None \<Rightarrow> True | Some f \<Rightarrow> t \<le> to_utc f))
       else True) \<and>
      (if tags' \<noteq> None \<and> tags' \<noteq> Some [] then
         (case document.tags d of
            None \<Rightarrow> False
          | Some ts \<Rightarrow> \<exists>x \<in> set ts. x \<in> set (map lower (case tags' of None \<Rightarrow> [] | Some l \<Rightarrow> l)))
       else True))"

text \<open>
  \<^verbatim>\<open>get_events\<close>. The driver rejects a negative skip and a negative length when the
  cursor is built, and a skip or a limit beyond 8 bytes when the query is sent; the
  router admits only \<open>page \<ge> 1\<close> and \<open>1 \<le> limit \<le> 100\<close>.
\<close>

definition get_events ::
  "'i bson \<Rightarrow> 'i collection \<Rightarrow> int \<Rightarrow> int \<Rightarrow> datetime option \<Rightarrow> datetime option \<Rightarrow>
     string list option \<Rightarrow> error + (string document option list \<times> int)" where
  "get_events B c page limit date_from date_to tags' =
     (let query = list_query date_from date_to tags';
          total = int (count_documents query c);
          skip = (page - 1) * limit
      in if skip < 0 \<or> limit < 0 then Inl ValueError
         else if \<not> int64 skip \<or> \<not> int64 limit then Inl OverflowError
         else
           (let events = take (nat limit) (drop (nat skip) (sort_key document.date (filter query c)))
            in Inr (map (\<lambda>event. event_helper B (Some event)) events, total)))"

definition get_event_by_id ::
  "'i bson \<Rightarrow> 'i collection \<Rightarrow> string \<Rightarrow> error + string document option" where
  "get_event_by_id B c event_id =
     (if \<not> is_valid B event_id then Inl InvalidIdentifier
      else case find_one (\<lambda>d. doc_id d = ObjectId B event_id \<and> document.is_active d = Some True) c of
             None \<Rightarrow> Inl NotFound
           | Some event \<Rightarrow> Inr (event_helper B (Some event)))"

text \<open>
  The dictionary \<^verbatim>\<open>update_data\<close> is the validated \<open>EventUpdate\<close> itself: a key is
  present exactly when the field is \<open>Supplied\<close>.
\<close>

definition update_data_empty :: "EventUpdate \<Rightarrow> bool" where
  "update_data_empty u =
     (EventUpdate.title u = Unset \<and> EventUpdate.description u = Unset \<and>
      EventUpdate.date u = Unset \<and> EventUpdate.location u = Unset \<and>
      EventUpdate.organizer u = Unset \<and> EventUpdate.tags u = Unset \<and>
      EventUpdate.capacity u = Unset \<and> EventUpdate.is_active u = Unset)"

definition dict_get :: "'a field \<Rightarrow> 'a option \<Rightarrow> 'a option" where
  "dict_get f dflt = (case f of Unset \<Rightarrow> dflt | Supplied v \<Rightarrow> v)"

text \<open>Whether the driver can encode \<^verbatim>\<open>update_data\<close>: its only integer is the capacity.\<close>

definition update_data_encodable :: "EventUpdate \<Rightarrow> bool" where
  "update_data_encodable u =
     (case EventUpdate.capacity u of Unset \<Rightarrow> True | Supplied v \<Rightarrow> encodable v)"

text \<open>The effect of \<^verbatim>\<open>{"$set": update_data}\<close> on a document.\<close>

definition set_update_data :: "EventUpdate \<Rightarrow> int \<Rightarrow> 'i document \<Rightarrow> 'i document" where
  "set_update_data u now d =
     d\<lparr>document.title := dict_get (EventUpdate.title u) (document.title d),
       document.description := dict_get (EventUpdate.description u) (document.description d),
       document.date := dict_get (map_field to_utc (EventUpdate.date u)) (document.date d),
       document.location := dict_get (EventUpdate.location u) (document.location d),
       document.organizer := dict_get (EventUpdate.organizer u) (document.organizer d),
       document.tags := dict_get (EventUpdate.tags u) (document.tags d),
       document.capacity := dict_get (EventUpdate.capacity u) (document.capacity d),
       document.is_active := dict_get (EventUpdate.is_active u) (document.is_active d),
       updated_at := now\<rparr>"

definition update_event ::
  "'i bson \<Rightarrow> int \<Rightarrow> 'i collection \<Rightarrow> string \<Rightarrow> EventUpdate \<Rightarrow>
     (error + string document option) \<times> 'i collection" where
  "update_event B now c event_id event_update =
     (if \<not> is_valid B event_id then (Inl InvalidIdentifier, c)
      else
        case find_one (\<lambda>d. doc_id d = ObjectId B event_id \<and> document.is_active d = Some True) c of
          None \<Rightarrow> (Inl NotFound, c)
        | Some existing_event \<Rightarrow>
            if update_data_empty event_update then (Inr (event_helper B (Some existing_event)), c)
            else
              (let title = dict_get (EventUpdate.title event_update) (document.title existing_event);
                   date = dict_get (map_field to_utc (EventUpdate.date event_update))
                            (document.date existing_event)
               in if (EventUpdate.title event_update \<noteq> Unset \<or>
                      EventUpdate.date event_update \<noteq> Unset) \<and>
                     find_one (\<lambda>d. document.title d = title \<and> document.date d = date \<and>
                                    document.is_active d = Some True \<and>
                                    doc_id d \<noteq> ObjectId B event_id) c \<noteq> None
                  then (Inl Conflict, c)
                  else if \<not> update_data_encodable event_update then (Inl OverflowError, c)
                  else
                    (case update_one (\<lambda>d. doc_id d = ObjectId B event_id)
                            (set_update_data event_update now) c of
                       (c', n) \<Rightarrow>
                         (Inr (event_helper B (find_one (\<lambda>d. doc_id d = ObjectId B event_id) c')),
                          c'))))"

definition delete_event ::
  "'i bson \<Rightarrow> int \<Rightarrow> 'i collection \<Rightarrow> string \<Rightarrow> (error + bool) \<times> 'i collection" where
  "delete_event B now c event_id =
     (if \<not> is_valid B event_id then (Inl InvalidIdentifier, c)
      else
        case update_one (\<lambda>d. doc_id d = ObjectId B event_id \<and> document.is_active d = Some True)
               (\<lambda>d. d\<lparr>document.is_active := Some False, updated_at := now\<rparr>) c of
          (c', modified_count) \<Rightarrow>
            if modified_count = 0 then (Inl NotFound, c) else (Inr True, c'))"

text \<open>
  A 24-digit hexadecimal instance of the identifier functions, with the lowercase
  digits as the identifier, used to evaluate the service on the identifiers of the
  test suite.
\<close>

definition hex24 :: "string bson" where
  "hex24 =
     \<lparr>is_valid = (\<lambda>s. length s = 24 \<and> (\<forall>ch \<in> set s. ch \<in> set ''0123456789abcdefABCDEF'')),
      ObjectId = lower,
      str = (\<lambda>i. i)\<rparr>"

text \<open>The store keeps identifiers unique.\<close>

definition unique_ids :: "'i collection \<Rightarrow> bool" where
  "unique_ids c = distinct (map doc_id c)"

text \<open>
  The collision \<^verbatim>\<open>update_event\<close> looks for: an active document other than \<open>i\<close> with
  the title and the date the update would give to \<open>existing\<close>.
\<close>

definition title_date_taken :: "'i \<Rightarrow> EventUpdate \<Rightarrow> 'i document \<Rightarrow> 'i collection \<Rightarrow> bool" where
  "title_date_taken i u existing c =
     (\<exists>x \<in> set c.
        document.title x =
          (case EventUpdate.title u of Unset \<Rightarrow> document.title existing | Supplied v \<Rightarrow> v) \<and>
        document.date x =
          (case EventUpdate.date u of
             Unset \<Rightarrow> document.date existing
           | Supplied v \<Rightarrow> map_option to_utc v) \<and>
        document.is_active x = Some True \<and> doc_id x \<noteq> i)"

subsection \<open>Sample data\<close>

text \<open>
  The event of the test suite, as validated, and the document the service stores for
  it under an identifier \<open>i\<close>; the update request that supplies no field.
\<close>

definition sample_event :: EventCreate where
  "sample_event =
     \<lparr>EventCreate.title = ''Test Conference 2025'',
      EventCreate.description = ''A test conference for developers'',
      EventCreate.date = \<lparr>wall = 5000, tzinfo = Some 0\<rparr>,
      EventCreate.location = ''Test City'',
      EventCreate.organizer = ''test@conference.com'',
      EventCreate.tags = [''test'', ''python''],
      EventCreate.capacity = 100\<rparr>"

definition sample_doc :: "'i \<Rightarrow> 'i document" where
  "sample_doc i =
     \<lparr>doc_id = i,
      document.title = Some ''Test Conference 2025'',
      document.description = Some ''A test conference for developers'',
      document.date = Some 5000,
      document.location = Some ''Test City'',
      document.organizer = Some ''test@conference.com'',
      document.tags = Some [''test'', ''python''],
      document.capacity = Some 100,
      document.is_active = Some True,
      created_at = 1000,
      updated_at = 1001\<rparr>"

definition no_update :: EventUpdate where
  "no_update =
     \<lparr>EventUpdate.title = Unset, EventUpdate.description = Unset, EventUpdate.date = Unset,
      EventUpdate.location = Unset, EventUpdate.organizer = Unset, EventUpdate.tags = Unset,
      EventUpdate.capacity = Unset, EventUpdate.is_active = Unset\<rparr>"

section \<open>Properties\<close>

subsection \<open>Trimming and lowercasing\<close>

lemma of_char_lower_char:
  "of_char (lower_char c) = (if isupper c then of_char c + 32 else of_char c :: nat)"
  by (auto simp: lower_char_def isupper_def Let_def)

lemma isspace_lower_char: "isspace (lower_char c) = isspace c"
  by (auto simp: isspace_def of_char_lower_char isupper_def Let_def)

lemma not_isupper_lower_char: "\<not> isupper (lower_char c)"
  using of_char_lower_char [of c] by (auto simp: isupper_def Let_def split: if_splits)

lemma lower_char_idem: "lower_char (lower_char c) = lower_char c"
  using not_isupper_lower_char [of c] by (simp add: lower_char_def [of "lower_char c"])

lemma last_dropWhile: "dropWhile P xs \<noteq> [] \<Longrightarrow> last (dropWhile P xs) = last xs"
  by (induction xs) (auto split: if_splits)

lemma strip_ends:
  assumes "strip s \<noteq> []"
  shows "\<not> isspace (hd (strip s)) \<and> \<not> isspace (last (strip s))"
proof -
  define a where "a = dropWhile isspace s"
  define b where "b = dropWhile isspace (rev a)"
  have s: "strip s = rev b" by (simp add: strip_def a_def b_def)
  with assms have b: "b \<noteq> []" by simp
  then have a: "a \<noteq> []" by (auto simp: b_def)
  have "\<not> isspace (hd b)" using b unfolding b_def by (rule hd_dropWhile)
  moreover have "last b = hd a"
    using b a last_dropWhile [of isspace "rev a"] by (simp add: b_def last_rev)
  moreover have "\<not> isspace (hd a)" using a unfolding a_def by (rule hd_dropWhile)
  ultimately show ?thesis using b by (simp add: s hd_rev last_rev)
qed

text \<open>What \<open>strip\<close> removes is a run of whitespace at each end.\<close>

lemma strip_decomposes:
  "\<exists>pre post. s = pre @ strip s @ post \<and> (\<forall>ch \<in> set pre. isspace ch) \<and>
     (\<forall>ch \<in> set post. isspace ch)"
proof -
  define a where "a = dropWhile isspace s"
  let ?pre = "takeWhile isspace s"
  let ?post = "rev (takeWhile isspace (rev a))"
  have "rev (takeWhile isspace (rev a) @ dropWhile isspace (rev a)) = rev (rev a)"
    by (simp only: takeWhile_dropWhile_id)
  then have "rev (dropWhile isspace (rev a)) @ ?post = a"
    by (simp only: rev_append rev_rev_ident)
  then have a: "a = strip s @ ?post" by (simp only: strip_def a_def)
  have "s = ?pre @ a" by (simp add: a_def)
  with a have "s = ?pre @ strip s @ ?post" by simp
  moreover have "\<forall>ch \<in> set ?pre. isspace ch" by (auto dest: set_takeWhileD)
  moreover have "\<forall>ch \<in> set ?post. isspace ch" by (auto dest: set_takeWhileD)
  ultimately show ?thesis by blast
qed

lemma strip_id:
  assumes "t = [] \<or> (\<not> isspace (hd t) \<and> \<not> isspace (last t))"
  shows "strip t = t"
proof (cases "t = []")
  case True
  then show ?thesis by (simp add: strip_def)
next
  case False
  with assms have h: "\<not> isspace (hd t)" and l: "\<not> isspace (last t)" by auto
  have "dropWhile isspace t = t" using h by (simp add: dropWhile_eq_self_iff)
  moreover have "dropWhile isspace (rev t) = rev t"
    using l False by (simp add: dropWhile_eq_self_iff hd_rev)
  ultimately show ?thesis by (simp add: strip_def)
qed

lemma lower_nth:
  "length (lower s) = length s \<and>
   (\<forall>i < length s. of_char (lower s ! i) =
      (if isupper (s ! i) then of_char (s ! i) + 32 else of_char (s ! i) :: nat))"
  by (simp add: lower_def of_char_lower_char)

lemma lower_strip_ends:
  assumes "strip s \<noteq> []"
  shows "lower (strip s) \<noteq> [] \<and> \<not> isspace (hd (lower (strip s))) \<and>
         \<not> isspace (last (lower (strip s))) \<and> (\<forall>ch \<in> set (lower (strip s)). \<not> isupper ch)"
proof -
  from assms have "\<not> isspace (hd (strip s)) \<and> \<not> isspace (last (strip s))" by (rule strip_ends)
  with assms show ?thesis
    by (auto simp: lower_def hd_map last_map isspace_lower_char not_isupper_lower_char)
qed

lemma sample_tags: "validate_tags [''Python'', '' python '', ''AI''] = [''python'', ''ai'']"
  by code_simp

subsection \<open>Tag normalisation\<close>

text \<open>
  Claim C8. \<^verbatim>\<open>validate_tags\<close> returns, as a set, the trimmed and lowercased forms of
  the tags that are not empty after trimming, and the result holds no duplicate; nothing
  is said about its order. Every tag of the result is non-empty, neither starts nor ends
  with whitespace and holds no uppercase letter. Trimming removes a run of whitespace at
  each end and leaves a string that is empty or starts and ends with other characters;
  lowercasing keeps the length and moves each uppercase letter, and no other character,
  up by 32 code points. The tags \<^verbatim>\<open>["Python", " python ", "AI"]\<close> give the set of
  \<open>python\<close> and \<open>ai\<close>.
\<close>

theorem validate_tags_normalises:
  "set (validate_tags v) = (\<lambda>tag. lower (strip tag)) ` {tag \<in> set v. strip tag \<noteq> []} \<and>
   distinct (validate_tags v) \<and>
   (\<forall>t \<in> set (validate_tags v).
      t \<noteq> [] \<and> \<not> isspace (hd t) \<and> \<not> isspace (last t) \<and> (\<forall>ch \<in> set t. \<not> isupper ch)) \<and>
   (\<forall>tag. \<exists>pre post.
      tag = pre @ strip tag @ post \<and> (\<forall>ch \<in> set pre. isspace ch) \<and>
      (\<forall>ch \<in> set post. isspace ch) \<and>
      (strip tag = [] \<or> \<not> isspace (hd (strip tag)) \<and> \<not> isspace (last (strip tag)))) \<and>
   (\<forall>s. length (lower s) = length s \<and>
      (\<forall>i < length s. of_char (lower s ! i) =
         (if isupper (s ! i) then of_char (s ! i) + 32 else of_char (s ! i) :: nat))) \<and>
   (\<forall>ch. isspace ch \<longleftrightarrow>
      of_char ch \<in> {9, 10, 11, 12, 13, 28, 29, 30, 31, 32, 133, 160 :: nat}) \<and>
   (\<forall>ch. isupper ch \<longleftrightarrow>
      65 \<le> (of_char ch :: nat) \<and> (of_char ch :: nat) \<le> 90 \<or>
      192 \<le> (of_char ch :: nat) \<and> (of_char ch :: nat) \<le> 222 \<and> (of_char ch :: nat) \<noteq> 215) \<and>
   set (validate_tags [''Python'', '' python '', ''AI'']) = {''python'', ''ai''}"
proof -
  have a1: "set (validate_tags v) = (\<lambda>tag. lower (strip tag)) ` {tag \<in> set v. strip tag \<noteq> []}"
    by (auto simp: validate_tags_def)
  have a2: "distinct (validate_tags v)" by (simp add: validate_tags_def)
  have a3: "\<forall>t \<in> set (validate_tags v).
      t \<noteq> [] \<and> \<not> isspace (hd t) \<and> \<not> isspace (last t) \<and> (\<forall>ch \<in> set t. \<not> isupper ch)"
  proof
    fix t
    assume "t \<in> set (validate_tags v)"
    then obtain tag where "strip tag \<noteq> []" and "t = lower (strip tag)"
      unfolding a1 by blast
    then show "t \<noteq> [] \<and> \<not> isspace (hd t) \<and> \<not> isspace (last t) \<and> (\<forall>ch \<in> set t. \<not> isupper ch)"
      using lower_strip_ends [of tag] by simp
  qed
  have a4: "\<exists>pre post.
      tag = pre @ strip tag @ post \<and> (\<forall>ch \<in> set pre. isspace ch) \<and>
      (\<forall>ch \<in> set post. isspace ch) \<and>
      (strip tag = [] \<or> \<not> isspace (hd (strip tag)) \<and> \<not> isspace (last (strip tag)))" for tag
    using strip_decomposes [of tag] strip_ends [of tag] by blast
  have a5: "isspace ch \<longleftrightarrow>
      of_char ch \<in> {9, 10, 11, 12, 13, 28, 29, 30, 31, 32, 133, 160 :: nat}" for ch
    by (simp add: isspace_def)
  have a6: "isupper ch \<longleftrightarrow>
      65 \<le> (of_char ch :: nat) \<and> (of_char ch :: nat) \<le> 90 \<or>
      192 \<le> (of_char ch :: nat) \<and> (of_char ch :: nat) \<le> 222 \<and> (of_char ch :: nat) \<noteq> 215" for ch
    by (simp add: isupper_def Let_def)
  have a7: "set (validate_tags [''Python'', '' python '', ''AI'']) = {''python'', ''ai''}"
    unfolding sample_tags by simp
  have all4: "\<forall>tag. \<exists>pre post.
      tag = pre @ strip tag @ post \<and> (\<forall>ch \<in> set pre. isspace ch) \<and>
      (\<forall>ch \<in> set post. isspace ch) \<and>
      (strip tag = [] \<or> \<not> isspace (hd (strip tag)) \<and> \<not> isspace (last (strip tag)))"
    by (intro allI) (rule a4)
  have l: "\<forall>s. length (lower s) = length s \<and>
      (\<forall>i < length s. of_char (lower s ! i) =
         (if isupper (s ! i) then of_char (s ! i) + 32 else of_char (s ! i) :: nat))"
    by (intro allI) (rule lower_nth)
  have all5: "\<forall>ch. isspace ch \<longleftrightarrow>
      of_char ch \<in> {9, 10, 11, 12, 13, 28, 29, 30, 31, 32, 133, 160 :: nat}"
    by (intro allI) (rule a5)
  have all6: "\<forall>ch. isupper ch \<longleftrightarrow>
      65 \<le> (of_char ch :: nat) \<and> (of_char ch :: nat) \<le> 90 \<or>
      192 \<le> (of_char ch :: nat) \<and> (of_char ch :: nat) \<le> 222 \<and> (of_char ch :: nat) \<noteq> 215"
    by (intro allI) (rule a6)
  show ?thesis
    by (rule conjI, rule a1, rule conjI, rule a2, rule conjI, rule a3, rule conjI, rule all4,
        rule conjI, rule l, rule conjI, rule all5, rule conjI, rule all6, rule a7)
qed

text \<open>
  Besides the three tags above: a tag of a no-break space and U+0085 is dropped, and
  the two spellings of one accented letter, U+00C9 and U+00E9, become one tag.
\<close>

theorem validate_tags_normalises_witness:
  "set (validate_tags [''Python'', '' python '', ''AI'']) = {''python'', ''ai''} \<and>
   distinct (validate_tags [''Python'', '' python '', ''AI'']) \<and>
   strip '' python '' = ''python'' \<and> lower ''Python'' = ''python'' \<and>
   validate_tags [[CHR 0xA0, CHR 0x85]] = [] \<and>
   validate_tags [[CHR 0xC9], [CHR 0xE9]] = [[CHR 0xE9]]"
proof -
  note n = validate_tags_normalises [of "[''Python'', '' python '', ''AI'']"]
  from n have "distinct (validate_tags [''Python'', '' python '', ''AI''])"
    by (elim conjE)
  moreover from n have "set (validate_tags [''Python'', '' python '', ''AI'']) = {''python'', ''ai''}"
    by (elim conjE)
  moreover have "strip '' python '' = ''python''" by code_simp
  moreover have "lower ''Python'' = ''python''" by code_simp
  moreover have "validate_tags [[CHR 0xA0, CHR 0x85]] = []" by code_simp
  moreover have "validate_tags [[CHR 0xC9], [CHR 0xE9]] = [[CHR 0xE9]]" by code_simp
  ultimately show ?thesis by blast
qed

subsection \<open>Dates in the past\<close>

lemma validate_EventCreate_past:
  assumes "date_not_in_past now (EventCreate.date raw) = Invalid"
  shows "\<exists>errs. validate_EventCreate now email raw = Inl errs \<and> ''date'' \<in> set errs"
  using assms
  by (simp add: validate_EventCreate_def Let_def errors_of_def split: checked.splits)

text \<open>
  Claim C7. The date validator fails exactly when the instant of its input is strictly
  earlier than the current UTC instant: a naive input is read as UTC (its wall clock is
  compared, and it is treated as the same input annotated with offset 0), an aware
  input is shifted by its offset. The validator of the update schema agrees on every
  supplied date, and validation of a create candidate whose date is earlier than now
  fails, naming the field \<open>date\<close>, whatever its annotation.
\<close>

theorem date_not_in_past_utc:
  "(date_not_in_past now v = Invalid \<longleftrightarrow> to_utc v < now) \<and>
   (tzinfo v = None \<longrightarrow> (date_not_in_past now v = Invalid \<longleftrightarrow> wall v < now)) \<and>
   (\<forall>off. tzinfo v = Some off \<longrightarrow> (date_not_in_past now v = Invalid \<longleftrightarrow> wall v - off < now)) \<and>
   date_not_in_past now (v\<lparr>tzinfo := None\<rparr>) = date_not_in_past now (v\<lparr>tzinfo := Some 0\<rparr>) \<and>
   (EventUpdate_date_not_in_past now (Some v) = Invalid \<longleftrightarrow> to_utc v < now) \<and>
   (to_utc (EventCreate.date raw) < now \<longrightarrow>
      (\<exists>errs. validate_EventCreate now email raw = Inl errs \<and> ''date'' \<in> set errs))"
proof -
  have a: "date_not_in_past now v = Invalid \<longleftrightarrow> to_utc v < now" for v
    by (simp add: date_not_in_past_def to_utc_def Let_def split: option.splits)
  have b: "EventUpdate_date_not_in_past now (Some v) = Invalid \<longleftrightarrow> to_utc v < now"
    by (simp add: EventUpdate_date_not_in_past_def to_utc_def Let_def split: option.splits)
  have c: "date_not_in_past now (v\<lparr>tzinfo := None\<rparr>) = date_not_in_past now (v\<lparr>tzinfo := Some 0\<rparr>)"
    by (simp add: date_not_in_past_def to_utc_def Let_def)
  have d: "to_utc (EventCreate.date raw) < now \<longrightarrow>
      (\<exists>errs. validate_EventCreate now email raw = Inl errs \<and> ''date'' \<in> set errs)"
    using validate_EventCreate_past [of now raw email] by (simp add: a)
  show ?thesis using a b c d by (simp add: to_utc_def)
qed

text \<open>
  With the clock at 1000: a naive 999 is rejected, 1060 at offset +120 is rejected,
  940 at offset -60 is accepted, and a candidate with the second date fails validation.
\<close>

theorem date_not_in_past_utc_witness:
  "date_not_in_past 1000 \<lparr>wall = 999, tzinfo = None\<rparr> = Invalid \<and>
   date_not_in_past 1000 \<lparr>wall = 1060, tzinfo = Some 120\<rparr> = Invalid \<and>
   date_not_in_past 1000 \<lparr>wall = 940, tzinfo = Some (- 60)\<rparr> \<noteq> Invalid \<and>
   (\<exists>errs. validate_EventCreate 1000 Valid
      \<lparr>EventCreate.title = ''Test Conference 2025'', EventCreate.description = ''A test'',
       EventCreate.date = \<lparr>wall = 1060, tzinfo = Some 120\<rparr>, EventCreate.location = ''Test City'',
       EventCreate.organizer = ''test@conference.com'', EventCreate.tags = [''test'', ''python''],
       EventCreate.capacity = 100\<rparr> = Inl errs \<and> ''date'' \<in> set errs)"
proof -
  let ?raw = "\<lparr>EventCreate.title = ''Test Conference 2025'', EventCreate.description = ''A test'',
       EventCreate.date = \<lparr>wall = 1060, tzinfo = Some 120\<rparr>, EventCreate.location = ''Test City'',
       EventCreate.organizer = ''test@conference.com'', EventCreate.tags = [''test'', ''python''],
       EventCreate.capacity = 100\<rparr>"
  have 1: "date_not_in_past 1000 \<lparr>wall = 999, tzinfo = None\<rparr> = Invalid"
    using date_not_in_past_utc [of 1000 "\<lparr>wall = 999, tzinfo = None\<rparr>"]
    by (simp add: to_utc_def)
  have 2: "date_not_in_past 1000 \<lparr>wall = 1060, tzinfo = Some 120\<rparr> = Invalid"
    using date_not_in_past_utc [of 1000 "\<lparr>wall = 1060, tzinfo = Some 120\<rparr>"]
    by (simp add: to_utc_def)
  have 3: "date_not_in_past 1000 \<lparr>wall = 940, tzinfo = Some (- 60)\<rparr> \<noteq> Invalid"
    using date_not_in_past_utc [of 1000 "\<lparr>wall = 940, tzinfo = Some (- 60)\<rparr>"]
    by (simp add: to_utc_def)
  have 4: "\<exists>errs. validate_EventCreate 1000 Valid ?raw = Inl errs \<and> ''date'' \<in> set errs"
    using date_not_in_past_utc [of 1000 _ ?raw Valid] by (simp add: to_utc_def)
  show ?thesis using 1 2 3 4 by blast
qed

subsection \<open>Queries and updates on the collection\<close>

lemma find_one_None: "find_one q c = None \<longleftrightarrow> \<not> (\<exists>d \<in> set c. q d)"
  by (auto simp: find_one_def find_None_iff)

lemma find_one_SomeD: "find_one q c = Some d \<Longrightarrow> d \<in> set c \<and> q d"
  by (auto simp: find_one_def find_Some_iff)

lemma unique_ids_eq:
  assumes "unique_ids c" "d \<in> set c" "e \<in> set c" "doc_id e = doc_id d"
  shows "e = d"
proof -
  from assms(1) have "inj_on doc_id (set c)"
    by (simp add: unique_ids_def distinct_map)
  with assms(2-4) show ?thesis by (simp add: inj_on_def)
qed

lemma find_one_unique:
  assumes "unique_ids c" "d \<in> set c" "q d" "\<And>x. q x \<Longrightarrow> doc_id x = doc_id d"
  shows "find_one q c = Some d"
proof (cases "find_one q c")
  case None
  with assms(2,3) show ?thesis by (simp add: find_one_None)
next
  case (Some e)
  then have e: "e \<in> set c" "q e" using find_one_SomeD by blast+
  then have "doc_id e = doc_id d" using assms(4) by simp
  with assms(1,2) e(1) have "e = d" by (rule unique_ids_eq)
  with Some show ?thesis by simp
qed

lemma update_one_no_match: "\<not> (\<exists>d \<in> set c. q d) \<Longrightarrow> update_one q f c = (c, 0)"
  by (induction c) simp_all

lemma update_one_unique:
  assumes "unique_ids c" "\<And>x. q x \<Longrightarrow> doc_id x = i"
  shows "fst (update_one q f c) = map (\<lambda>d. if q d then f d else d) c"
  using assms(1)
proof (induction c)
  case Nil
  then show ?case by simp
next
  case (Cons d ds)
  show ?case
  proof (cases "q d")
    case True
    then have i: "doc_id d = i" by (rule assms(2))
    from Cons.prems have n: "doc_id d \<notin> doc_id ` set ds" by (simp add: unique_ids_def)
    have "\<not> q x" if x: "x \<in> set ds" for x
    proof
      assume "q x"
      then have "doc_id x = doc_id d" using assms(2) i by simp
      with x have "doc_id d \<in> doc_id ` set ds" by (metis imageI)
      with n show False by simp
    qed
    then have "map (\<lambda>d. if q d then f d else d) ds = ds" by (simp add: map_idI)
    with True show ?thesis by simp
  next
    case False
    from Cons.prems have "unique_ids ds" by (simp add: unique_ids_def)
    then have "fst (update_one q f ds) = map (\<lambda>d. if q d then f d else d) ds"
      by (rule Cons.IH)
    with False show ?thesis by (simp add: split_beta)
  qed
qed

lemma update_one_count:
  assumes "\<And>x. q x \<Longrightarrow> f x \<noteq> x"
  shows "d \<in> set c \<Longrightarrow> q d \<Longrightarrow> snd (update_one q f c) = 1"
proof (induction c)
  case Nil
  then show ?case by simp
next
  case (Cons a as)
  show ?case
  proof (cases "q a")
    case True
    then show ?thesis using assms [of a] by simp
  next
    case False
    with Cons.prems have "d \<in> set as" by auto
    then have "snd (update_one q f as) = 1" using Cons.prems(2) by (rule Cons.IH)
    with False show ?thesis by (simp add: split_beta)
  qed
qed

subsection \<open>Malformed and absent identifiers\<close>

text \<open>
  Claim C5. \<^verbatim>\<open>get_event_by_id\<close> fails with \<open>InvalidIdentifier\<close> exactly when the
  string is not a well-formed identifier, and with \<open>NotFound\<close> exactly when it is
  well-formed and no active document has that identifier. \<^verbatim>\<open>update_event\<close> and
  \<^verbatim>\<open>delete_event\<close> reject a malformed identifier in the same way, leaving the
  collection as it is, and report \<open>NotFound\<close> for a well-formed identifier without an
  active document. The two failures are different outcomes (status 400 and 404).
\<close>

theorem invalid_identifier_or_not_found:
  "(get_event_by_id B c event_id = Inl InvalidIdentifier \<longleftrightarrow> \<not> is_valid B event_id) \<and>
   (get_event_by_id B c event_id = Inl NotFound \<longleftrightarrow>
      is_valid B event_id \<and>
      \<not> (\<exists>d \<in> set c. doc_id d = ObjectId B event_id \<and> document.is_active d = Some True)) \<and>
   (\<not> is_valid B event_id \<longrightarrow>
      update_event B now c event_id event_update = (Inl InvalidIdentifier, c) \<and>
      delete_event B now c event_id = (Inl InvalidIdentifier, c)) \<and>
   (is_valid B event_id \<and>
    \<not> (\<exists>d \<in> set c. doc_id d = ObjectId B event_id \<and> document.is_active d = Some True) \<longrightarrow>
      update_event B now c event_id event_update = (Inl NotFound, c) \<and>
      delete_event B now c event_id = (Inl NotFound, c)) \<and>
   (is_valid B event_id \<longrightarrow>
      fst (update_event B now c event_id event_update) \<noteq> Inl InvalidIdentifier \<and>
      fst (delete_event B now c event_id) \<noteq> Inl InvalidIdentifier) \<and>
   InvalidIdentifier \<noteq> NotFound \<and>
   status_code InvalidIdentifier \<noteq> status_code NotFound"
proof -
  let ?q = "\<lambda>d. doc_id d = ObjectId B event_id \<and> document.is_active d = Some True"
  have g1: "get_event_by_id B c event_id = Inl InvalidIdentifier \<longleftrightarrow> \<not> is_valid B event_id"
    by (simp add: get_event_by_id_def split: option.splits)
  have g2: "get_event_by_id B c event_id = Inl NotFound \<longleftrightarrow>
      is_valid B event_id \<and> \<not> (\<exists>d \<in> set c. ?q d)"
    using find_one_None [of ?q c]
    by (auto simp: get_event_by_id_def split: option.splits)
  have i: "update_event B now c event_id event_update = (Inl InvalidIdentifier, c) \<and>
      delete_event B now c event_id = (Inl InvalidIdentifier, c)" if "\<not> is_valid B event_id"
    using that by (simp add: update_event_def delete_event_def)
  have n: "update_event B now c event_id event_update = (Inl NotFound, c) \<and>
      delete_event B now c event_id = (Inl NotFound, c)"
    if "is_valid B event_id" "\<not> (\<exists>d \<in> set c. ?q d)"
  proof -
    from that(2) have "find_one ?q c = None" by (simp add: find_one_None)
    moreover from that(2) have "update_one ?q (\<lambda>d. d\<lparr>document.is_active := Some False, updated_at := now\<rparr>) c = (c, 0)"
      by (rule update_one_no_match)
    ultimately show ?thesis using that(1) by (simp add: update_event_def delete_event_def)
  qed
  have v: "fst (update_event B now c event_id event_update) \<noteq> Inl InvalidIdentifier \<and>
      fst (delete_event B now c event_id) \<noteq> Inl InvalidIdentifier" if "is_valid B event_id"
    using that
    by (simp add: update_event_def delete_event_def Let_def split: option.splits prod.splits)
  show ?thesis using g1 g2 i n v by simp
qed

text \<open>
  On a collection holding the sample event: \<^verbatim>\<open>not-an-id\<close> is rejected as malformed by
  the three operations, a well-formed identifier that is not stored is not found.
\<close>

theorem invalid_identifier_or_not_found_witness:
  "get_event_by_id hex24 [sample_doc ''507f1f77bcf86cd799439011''] ''not-an-id''
     = Inl InvalidIdentifier \<and>
   update_event hex24 2000 [sample_doc ''507f1f77bcf86cd799439011''] ''not-an-id'' no_update
     = (Inl InvalidIdentifier, [sample_doc ''507f1f77bcf86cd799439011'']) \<and>
   delete_event hex24 2000 [sample_doc ''507f1f77bcf86cd799439011''] ''not-an-id''
     = (Inl InvalidIdentifier, [sample_doc ''507f1f77bcf86cd799439011'']) \<and>
   get_event_by_id hex24 [sample_doc ''507f1f77bcf86cd799439011''] ''507f1f77bcf86cd799439012''
     = Inl NotFound \<and>
   update_event hex24 2000 [sample_doc ''507f1f77bcf86cd799439011''] ''507f1f77bcf86cd799439012''
       no_update
     = (Inl NotFound, [sample_doc ''507f1f77bcf86cd799439011'']) \<and>
   delete_event hex24 2000 [sample_doc ''507f1f77bcf86cd799439011''] ''507f1f77bcf86cd799439012''
     = (Inl NotFound, [sample_doc ''507f1f77bcf86cd799439011''])"
proof -
  let ?c = "[sample_doc ''507f1f77bcf86cd799439011'']"
  have bad: "\<not> is_valid hex24 ''not-an-id''" by (simp add: hex24_def)
  have good: "is_valid hex24 ''507f1f77bcf86cd799439012''" by (simp add: hex24_def)
  have absent: "\<not> (\<exists>d \<in> set ?c. doc_id d = ObjectId hex24 ''507f1f77bcf86cd799439012'' \<and>
                   document.is_active d = Some True)"
    by (simp add: hex24_def sample_doc_def lower_def lower_char_def isupper_def)
  show ?thesis
    using invalid_identifier_or_not_found [of hex24 ?c "''not-an-id''" 2000 no_update]
      invalid_identifier_or_not_found [of hex24 ?c "''507f1f77bcf86cd799439012''" 2000 no_update]
      bad good absent
    by blast
qed

subsection \<open>Creating an event\<close>

lemma find_one_snoc:
  "find_one q (c @ [d]) =
     (case find_one q c of None \<Rightarrow> if q d then Some d else None | Some x \<Rightarrow> Some x)"
  by (induction c) (simp_all add: find_one_def)

text \<open>
  Claim C1, amended. If an active document with the title and the date of the candidate
  is in the collection, \<^verbatim>\<open>create_event\<close> fails with \<open>Conflict\<close> and the collection is
  unchanged. Otherwise, provided the capacity of the candidate is an integer of at most
  8 bytes and the identifier the driver generates is not yet in the collection, it
  appends the document with that identifier, the candidate's fields, \<open>is_active = True\<close>
  and the two clock readings as \<open>created_at\<close> and \<open>updated_at\<close>, and returns that
  document with its identifier as a string.
\<close>

theorem create_event_conflict_or_insert:
  "((\<exists>d \<in> set c. document.title d = Some (EventCreate.title event) \<and>
                  document.date d = Some (to_utc (EventCreate.date event)) \<and>
                  document.is_active d = Some True) \<longrightarrow>
      create_event B new_id t_created t_updated c event = (Inl Conflict, c)) \<and>
   (\<not> (\<exists>d \<in> set c. document.title d = Some (EventCreate.title event) \<and>
                    document.date d = Some (to_utc (EventCreate.date event)) \<and>
                    document.is_active d = Some True) \<and>
    - (2 ^ 63) \<le> EventCreate.capacity event \<and> EventCreate.capacity event < 2 ^ 63 \<and>
    new_id \<notin> doc_id ` set c \<longrightarrow>
      create_event B new_id t_created t_updated c event =
        (Inr (Some \<lparr>doc_id = str B new_id,
                    document.title = Some (EventCreate.title event),
                    document.description = Some (EventCreate.description event),
                    document.date = Some (to_utc (EventCreate.date event)),
                    document.location = Some (EventCreate.location event),
                    document.organizer = Some (EventCreate.organizer event),
                    document.tags = Some (EventCreate.tags event),
                    document.capacity = Some (EventCreate.capacity event),
                    document.is_active = Some True,
                    created_at = t_created,
                    updated_at = t_updated\<rparr>),
         c @ [\<lparr>doc_id = new_id,
                document.title = Some (EventCreate.title event),
                document.description = Some (EventCreate.description event),
                document.date = Some (to_utc (EventCreate.date event)),
                document.location = Some (EventCreate.location event),
                document.organizer = Some (EventCreate.organizer event),
                document.tags = Some (EventCreate.tags event),
                document.capacity = Some (EventCreate.capacity event),
                document.is_active = Some True,
                created_at = t_created,
                updated_at = t_updated\<rparr>]))"
proof -
  let ?q = "\<lambda>d. document.title d = Some (EventCreate.title event) \<and>
                document.date d = Some (to_utc (EventCreate.date event)) \<and>
                document.is_active d = Some True"
  have conflict: "create_event B new_id t_created t_updated c event = (Inl Conflict, c)"
    if "\<exists>d \<in> set c. ?q d"
  proof -
    from that have "find_one ?q c \<noteq> None" by (simp add: find_one_None)
    then show ?thesis by (auto simp: create_event_def)
  qed
  have insert: ?thesis if free: "\<not> (\<exists>d \<in> set c. ?q d)" and fresh: "new_id \<notin> doc_id ` set c"
    and fits: "- (2 ^ 63) \<le> EventCreate.capacity event" "EventCreate.capacity event < 2 ^ 63"
  proof -
    from free have 1: "find_one ?q c = None" by (simp add: find_one_None)
    from fresh have "\<not> (\<exists>d \<in> set c. doc_id d = new_id)" by auto
    then have 2: "find_one (\<lambda>d. doc_id d = new_id) c = None" by (simp add: find_one_None)
    show ?thesis using free fresh fits
      by (simp add: create_event_def 1 2 insert_one_def encodable_def int64_def find_one_snoc
            event_helper_def)
  qed
  show ?thesis using conflict insert by blast
qed

text \<open>
  Creating the sample event in an empty collection stores and returns it; creating it
  again, with another fresh identifier, fails with \<open>Conflict\<close> and stores nothing.
\<close>

theorem create_event_conflict_or_insert_witness:
  "create_event hex24 ''507f1f77bcf86cd799439011'' 1000 1001 [] sample_event =
     (Inr (Some (sample_doc ''507f1f77bcf86cd799439011'')),
      [sample_doc ''507f1f77bcf86cd799439011'']) \<and>
   create_event hex24 ''507f1f77bcf86cd799439012'' 2000 2001
       [sample_doc ''507f1f77bcf86cd799439011''] sample_event =
     (Inl Conflict, [sample_doc ''507f1f77bcf86cd799439011''])"
proof -
  have 1: "create_event hex24 ''507f1f77bcf86cd799439011'' 1000 1001 [] sample_event =
     (Inr (Some (sample_doc ''507f1f77bcf86cd799439011'')),
      [sample_doc ''507f1f77bcf86cd799439011''])"
    using create_event_conflict_or_insert
            [of "[]" sample_event hex24 "''507f1f77bcf86cd799439011''" 1000 1001]
    by (simp add: sample_event_def sample_doc_def hex24_def to_utc_def)
  have 2: "create_event hex24 ''507f1f77bcf86cd799439012'' 2000 2001
       [sample_doc ''507f1f77bcf86cd799439011''] sample_event =
     (Inl Conflict, [sample_doc ''507f1f77bcf86cd799439011''])"
    using create_event_conflict_or_insert
            [of "[sample_doc ''507f1f77bcf86cd799439011'']" sample_event hex24
                "''507f1f77bcf86cd799439012''" 2000 2001]
    by (simp add: sample_event_def sample_doc_def to_utc_def)
  show ?thesis using 1 2 by blast
qed

text \<open>
  The claim as first stated promises the insert for every candidate. It fails for a
  candidate that passes the schema with the capacity \<open>2 ^ 63\<close>: no event has its title
  and date, yet the insert raises \<^verbatim>\<open>OverflowError\<close> and nothing is stored.
\<close>

theorem create_event_overflow_counterexample:
  "validate_EventCreate 1000 Valid (sample_event\<lparr>EventCreate.capacity := 2 ^ 63\<rparr>) =
     Inr (sample_event\<lparr>EventCreate.capacity := 2 ^ 63\<rparr>) \<and>
   create_event hex24 ''507f1f77bcf86cd799439011'' 1000 1001 []
       (sample_event\<lparr>EventCreate.capacity := 2 ^ 63\<rparr>) =
     (Inl OverflowError, [])"
proof -
  have t: "validate_tags [''test'', ''python''] = [''test'', ''python'']" by code_simp
  have "validate_EventCreate 1000 Valid (sample_event\<lparr>EventCreate.capacity := 2 ^ 63\<rparr>) =
     Inr (sample_event\<lparr>EventCreate.capacity := 2 ^ 63\<rparr>)"
    by (simp add: validate_EventCreate_def sample_event_def constrained_str_def
          date_not_in_past_def to_utc_def constrained_int_gt_def t)
  moreover have "create_event hex24 ''507f1f77bcf86cd799439011'' 1000 1001 []
       (sample_event\<lparr>EventCreate.capacity := 2 ^ 63\<rparr>) =
     (Inl OverflowError, [])"
    by (simp add: create_event_def find_one_def insert_one_def encodable_def int64_def
          sample_event_def)
  ultimately show ?thesis by blast
qed

subsection \<open>Soft delete\<close>

lemma get_events_members:
  assumes "get_events B c page limit date_from date_to tags' = Inr (evs, total_count)"
    and "e \<in> set evs"
  shows "\<exists>d \<in> set c. e = event_helper B (Some d) \<and> list_query date_from date_to tags' d"
proof -
  let ?q = "list_query date_from date_to tags'"
  let ?skip = "nat ((page - 1) * limit)"
  from assms(1) have
    "evs = map (\<lambda>event. event_helper B (Some event))
             (take (nat limit) (drop ?skip (sort_key document.date (filter ?q c))))"
    by (simp add: get_events_def Let_def split: if_splits)
  with assms(2) obtain d where
    d: "d \<in> set (take (nat limit) (drop ?skip (sort_key document.date (filter ?q c))))"
    and e: "e = event_helper B (Some d)"
    by auto
  from d have "d \<in> set (sort_key document.date (filter ?q c))"
    by (meson in_set_takeD in_set_dropD)
  then have "d \<in> set c \<and> ?q d" by simp
  with e show ?thesis by blast
qed

lemma soft_delete_changes:
  "document.is_active d = Some True \<Longrightarrow>
   d\<lparr>document.is_active := Some False, updated_at := now\<rparr> \<noteq> d"
proof
  assume a: "document.is_active d = Some True"
    and "d\<lparr>document.is_active := Some False, updated_at := now\<rparr> = d"
  then have "document.is_active (d\<lparr>document.is_active := Some False, updated_at := now\<rparr>)
             = document.is_active d"
    by simp
  with a show False by simp
qed

lemma delete_event_active:
  assumes valid: "is_valid B event_id" and uniq: "unique_ids c"
    and d: "d \<in> set c" "doc_id d = ObjectId B event_id" "document.is_active d = Some True"
  shows "delete_event B now c event_id =
           (Inr True,
            map (\<lambda>d. if doc_id d = ObjectId B event_id
                      then d\<lparr>document.is_active := Some False, updated_at := now\<rparr> else d) c)"
proof -
  let ?i = "ObjectId B event_id"
  let ?q = "\<lambda>d. doc_id d = ?i \<and> document.is_active d = Some True"
  let ?f = "\<lambda>d. d\<lparr>document.is_active := Some False, updated_at := now\<rparr>"
  have 1: "fst (update_one ?q ?f c) = map (\<lambda>d. if ?q d then ?f d else d) c"
    using uniq by (rule update_one_unique) simp
  have "?q x \<longleftrightarrow> doc_id x = ?i" if "x \<in> set c" for x
  proof
    assume "doc_id x = ?i"
    with d(2) have "doc_id x = doc_id d" by simp
    with uniq d(1) that have "x = d" by (rule unique_ids_eq)
    with d show "?q x" by simp
  qed simp
  then have 2: "map (\<lambda>d. if ?q d then ?f d else d) c = map (\<lambda>d. if doc_id d = ?i then ?f d else d) c"
    by (intro map_cong) simp_all
  have 3: "snd (update_one ?q ?f c) = 1"
    by (rule update_one_count [where d = d]) (use d in \<open>simp_all add: soft_delete_changes\<close>)
  obtain c' n where u: "update_one ?q ?f c = (c', n)" by (cases "update_one ?q ?f c")
  with 1 2 3 have "c' = map (\<lambda>d. if doc_id d = ?i then ?f d else d) c" "n = 1" by simp_all
  with u valid show ?thesis by (simp add: delete_event_def)
qed

lemma delete_event_inactive:
  assumes "is_valid B event_id"
    and "\<not> (\<exists>d \<in> set c. doc_id d = ObjectId B event_id \<and> document.is_active d = Some True)"
  shows "delete_event B now c event_id = (Inl NotFound, c)"
proof -
  from assms(2) have
    "update_one (\<lambda>d. doc_id d = ObjectId B event_id \<and> document.is_active d = Some True)
       (\<lambda>d. d\<lparr>document.is_active := Some False, updated_at := now\<rparr>) c = (c, 0)"
    by (rule update_one_no_match)
  with assms(1) show ?thesis by (simp add: delete_event_def)
qed

lemma event_helper_doc_id: "event_helper B (Some d) = Some e \<Longrightarrow> doc_id e = str B (doc_id d)"
  by (auto simp: event_helper_def)

text \<open>
  Claim C2. For a well-formed identifier and a collection with unique identifiers:
  if a document with that identifier is active, \<^verbatim>\<open>delete_event\<close> succeeds and the
  collection differs only in that document, whose \<open>is_active\<close> is now \<open>False\<close> and whose
  \<open>updated_at\<close> is the clock reading; if no active document has the identifier, it
  fails with \<open>NotFound\<close> and changes nothing. After a success \<^verbatim>\<open>get_event_by_id\<close> on
  that identifier fails with \<open>NotFound\<close>, every entity \<^verbatim>\<open>get_events\<close> returns comes
  from a document with another identifier, and the document is still in the collection,
  inactive.
\<close>

theorem delete_event_soft:
  assumes valid: "is_valid B event_id" and uniq: "unique_ids c"
  shows
    "((\<exists>d \<in> set c. doc_id d = ObjectId B event_id \<and> document.is_active d = Some True) \<longrightarrow>
        delete_event B now c event_id =
          (Inr True,
           map (\<lambda>d. if doc_id d = ObjectId B event_id
                     then d\<lparr>document.is_active := Some False, updated_at := now\<rparr> else d) c)) \<and>
     (\<not> (\<exists>d \<in> set c. doc_id d = ObjectId B event_id \<and> document.is_active d = Some True) \<longrightarrow>
        delete_event B now c event_id = (Inl NotFound, c)) \<and>
     (\<forall>c'. delete_event B now c event_id = (Inr True, c') \<longrightarrow>
        get_event_by_id B c' event_id = Inl NotFound \<and>
        (\<exists>d \<in> set c'. doc_id d = ObjectId B event_id \<and> document.is_active d = Some False \<and>
                       updated_at d = now) \<and>
        map doc_id c' = map doc_id c \<and>
        (\<forall>page limit date_from date_to tags' evs total_count e.
           get_events B c' page limit date_from date_to tags' = Inr (evs, total_count) \<and>
           e \<in> set evs \<longrightarrow>
             (\<exists>d \<in> set c'. e = event_helper B (Some d) \<and> doc_id d \<noteq> ObjectId B event_id \<and>
                            document.is_active d = Some True) \<and>
             (inj (str B) \<longrightarrow>
                (\<exists>x. e = Some x \<and> doc_id x \<noteq> str B (ObjectId B event_id)))))"
proof -
  let ?i = "ObjectId B event_id"
  let ?f = "\<lambda>d. d\<lparr>document.is_active := Some False, updated_at := now\<rparr>"
  let ?g = "\<lambda>d. if doc_id d = ?i then ?f d else d"
  let ?active = "\<exists>d \<in> set c. doc_id d = ?i \<and> document.is_active d = Some True"
  have a: "delete_event B now c event_id = (Inr True, map ?g c)" if ?active
    using that delete_event_active [OF valid uniq] by blast
  have b: "delete_event B now c event_id = (Inl NotFound, c)" if "\<not> ?active"
    using valid that by (rule delete_event_inactive)
  have after: "get_event_by_id B c' event_id = Inl NotFound \<and>
        (\<exists>d \<in> set c'. doc_id d = ?i \<and> document.is_active d = Some False \<and> updated_at d = now) \<and>
        map doc_id c' = map doc_id c \<and>
        (\<forall>page limit date_from date_to tags' evs total_count e.
           get_events B c' page limit date_from date_to tags' = Inr (evs, total_count) \<and>
           e \<in> set evs \<longrightarrow>
             (\<exists>d \<in> set c'. e = event_helper B (Some d) \<and> doc_id d \<noteq> ?i \<and>
                            document.is_active d = Some True) \<and>
             (inj (str B) \<longrightarrow> (\<exists>x. e = Some x \<and> doc_id x \<noteq> str B ?i)))"
    if del: "delete_event B now c event_id = (Inr True, c')" for c'
  proof -
    have act: ?active
    proof (rule ccontr)
      assume "\<not> ?active"
      then have "delete_event B now c event_id = (Inl NotFound, c)" by (rule b)
      with del show False by simp
    qed
    with a del have c': "c' = map ?g c" by simp
    have none: "\<not> (doc_id x = ?i \<and> document.is_active x = Some True)" if "x \<in> set c'" for x
      using that unfolding c' by auto
    then have "find_one (\<lambda>d. doc_id d = ?i \<and> document.is_active d = Some True) c' = None"
      by (simp add: find_one_None)
    with valid have 1: "get_event_by_id B c' event_id = Inl NotFound"
      by (simp add: get_event_by_id_def)
    from act obtain d where "d \<in> set c" "doc_id d = ?i" by blast
    then have "?g d \<in> set c'" "doc_id (?g d) = ?i" "document.is_active (?g d) = Some False"
      "updated_at (?g d) = now"
      unfolding c' by simp_all
    then have 2: "\<exists>d \<in> set c'. doc_id d = ?i \<and> document.is_active d = Some False \<and>
        updated_at d = now"
      by blast
    have 3: "map doc_id c' = map doc_id c" unfolding c' by simp
    have 4: "(\<exists>d \<in> set c'. e = event_helper B (Some d) \<and> doc_id d \<noteq> ?i \<and>
                            document.is_active d = Some True) \<and>
             (inj (str B) \<longrightarrow> (\<exists>x. e = Some x \<and> doc_id x \<noteq> str B ?i))"
      if g: "get_events B c' page limit date_from date_to tags' = Inr (evs, total_count)"
        and e: "e \<in> set evs"
      for page limit date_from date_to tags' evs total_count e
    proof -
      from get_events_members [OF g e] obtain d where
        d: "d \<in> set c'" "e = event_helper B (Some d)" "list_query date_from date_to tags' d"
        by blast
      from d(3) have ad: "document.is_active d = Some True" by (simp add: list_query_def)
      with none [OF d(1)] have nd: "doc_id d \<noteq> ?i" by simp
      obtain x where x: "e = Some x" using d(2) by (simp add: event_helper_def)
      with d(2) have "doc_id x = str B (doc_id d)" by (simp add: event_helper_doc_id)
      with nd have "inj (str B) \<longrightarrow> doc_id x \<noteq> str B ?i" by (auto dest: injD)
      with d ad nd x show ?thesis by blast
    qed
    from 1 2 3 4 show ?thesis by blast
  qed
  from a b after show ?thesis by blast
qed

text \<open>
  Deleting the stored sample event succeeds and leaves it in the collection, inactive
  and stamped with the clock reading; it can then no longer be fetched, and deleting
  it once more fails with \<open>NotFound\<close>.
\<close>

theorem delete_event_soft_witness:
  "delete_event hex24 2000 [sample_doc ''507f1f77bcf86cd799439011''] ''507f1f77bcf86cd799439011'' =
     (Inr True,
      [(sample_doc ''507f1f77bcf86cd799439011'')
         \<lparr>document.is_active := Some False, updated_at := 2000\<rparr>]) \<and>
   get_event_by_id hex24
     [(sample_doc ''507f1f77bcf86cd799439011'')\<lparr>document.is_active := Some False, updated_at := 2000\<rparr>]
     ''507f1f77bcf86cd799439011'' = Inl NotFound \<and>
   delete_event hex24 3000
     [(sample_doc ''507f1f77bcf86cd799439011'')\<lparr>document.is_active := Some False, updated_at := 2000\<rparr>]
     ''507f1f77bcf86cd799439011'' =
     (Inl NotFound,
      [(sample_doc ''507f1f77bcf86cd799439011'')
         \<lparr>document.is_active := Some False, updated_at := 2000\<rparr>])"
proof -
  let ?i = "''507f1f77bcf86cd799439011''"
  let ?c = "[sample_doc ?i]"
  let ?c' = "[(sample_doc ?i)\<lparr>document.is_active := Some False, updated_at := 2000\<rparr>]"
  have valid: "is_valid hex24 ?i" by (simp add: hex24_def)
  have oid: "ObjectId hex24 ?i = ?i" by (simp add: hex24_def lower_def lower_char_def isupper_def)
  have u: "unique_ids ?c" and u': "unique_ids ?c'" by (simp_all add: unique_ids_def)
  have active: "\<exists>d \<in> set ?c. doc_id d = ObjectId hex24 ?i \<and> document.is_active d = Some True"
    by (simp add: oid sample_doc_def)
  have inactive:
    "\<not> (\<exists>d \<in> set ?c'. doc_id d = ObjectId hex24 ?i \<and> document.is_active d = Some True)"
    by (simp add: sample_doc_def)
  have m: "map (\<lambda>d. if doc_id d = ObjectId hex24 ?i
                      then d\<lparr>document.is_active := Some False, updated_at := 2000\<rparr> else d) ?c = ?c'"
    by (simp add: oid sample_doc_def)
  from delete_event_soft [OF valid u, of 2000] active
  have 1: "delete_event hex24 2000 ?c ?i = (Inr True, ?c')" unfolding m by blast
  with delete_event_soft [OF valid u, of 2000]
  have 2: "get_event_by_id hex24 ?c' ?i = Inl NotFound" by blast
  from delete_event_soft [OF valid u', of 3000] inactive
  have 3: "delete_event hex24 3000 ?c' ?i = (Inl NotFound, ?c')" by blast
  from 1 2 3 show ?thesis by blast
qed

subsection \<open>Updating an event\<close>

lemma set_update_data_doc_id: "doc_id (set_update_data u now d) = doc_id d"
  by (simp add: set_update_data_def)

lemma find_one_after_update:
  assumes uniq: "unique_ids c" and d: "d \<in> set c" "doc_id d = i"
    and f: "\<And>x. doc_id (f x) = doc_id x"
  shows "find_one (\<lambda>x. doc_id x = i) (map (\<lambda>x. if doc_id x = i then f x else x) c) = Some (f d)"
proof -
  let ?g = "\<lambda>x. if doc_id x = i then f x else x"
  have "map doc_id (map ?g c) = map doc_id c" by (simp add: f)
  with uniq have u: "unique_ids (map ?g c)" by (simp only: unique_ids_def)
  from d have m: "f d \<in> set (map ?g c)" by force
  show ?thesis
    using u m by (rule find_one_unique) (simp_all add: f d)
qed

lemma update_event_found:
  assumes valid: "is_valid B event_id" and uniq: "unique_ids c"
    and d: "d \<in> set c" "doc_id d = ObjectId B event_id" "document.is_active d = Some True"
  shows "update_event B now c event_id u =
     (if update_data_empty u then (Inr (event_helper B (Some d)), c)
      else if (EventUpdate.title u \<noteq> Unset \<or> EventUpdate.date u \<noteq> Unset) \<and>
              title_date_taken (ObjectId B event_id) u d c
      then (Inl Conflict, c)
      else if \<not> update_data_encodable u then (Inl OverflowError, c)
      else (Inr (event_helper B (Some (set_update_data u now d))),
            map (\<lambda>x. if doc_id x = ObjectId B event_id then set_update_data u now x else x) c))"
proof -
  let ?i = "ObjectId B event_id"
  have found: "find_one (\<lambda>x. doc_id x = ?i \<and> document.is_active x = Some True) c = Some d"
    using uniq d(1) by (rule find_one_unique) (simp_all add: d)
  have dg: "dict_get (map_field to_utc (EventUpdate.date u)) (document.date d) =
        (case EventUpdate.date u of Unset \<Rightarrow> document.date d | Supplied v \<Rightarrow> map_option to_utc v)"
    by (cases "EventUpdate.date u") (simp_all add: dict_get_def)
  have tg: "dict_get (EventUpdate.title u) (document.title d) =
        (case EventUpdate.title u of Unset \<Rightarrow> document.title d | Supplied v \<Rightarrow> v)"
    by (simp add: dict_get_def)
  have dup: "find_one (\<lambda>x. document.title x = dict_get (EventUpdate.title u) (document.title d) \<and>
                 document.date x = dict_get (map_field to_utc (EventUpdate.date u)) (document.date d) \<and>
                 document.is_active x = Some True \<and> doc_id x \<noteq> ?i) c \<noteq> None
             \<longleftrightarrow> title_date_taken ?i u d c"
    unfolding find_one_None dg tg title_date_taken_def by blast
  have upd: "fst (update_one (\<lambda>x. doc_id x = ?i) (set_update_data u now) c) =
        map (\<lambda>x. if doc_id x = ?i then set_update_data u now x else x) c"
    using uniq by (rule update_one_unique) simp
  have after: "find_one (\<lambda>x. doc_id x = ?i)
        (map (\<lambda>x. if doc_id x = ?i then set_update_data u now x else x) c) =
        Some (set_update_data u now d)"
    using uniq d(1,2) by (rule find_one_after_update) (rule set_update_data_doc_id)
  obtain c' n where u1: "update_one (\<lambda>x. doc_id x = ?i) (set_update_data u now) c = (c', n)"
    by (cases "update_one (\<lambda>x. doc_id x = ?i) (set_update_data u now) c")
  with upd have c': "c' = map (\<lambda>x. if doc_id x = ?i then set_update_data u now x else x) c"
    by simp
  show ?thesis
    using valid dup
    by (simp add: update_event_def found Let_def u1 after [folded c'] c' [symmetric])
qed

lemma update_data_empty_iff: "update_data_empty u \<longleftrightarrow> u = no_update"
  by (cases u) (auto simp: update_data_empty_def no_update_def)

text \<open>
  Claim C9. For a well-formed identifier of an active document, in a collection with
  unique identifiers, \<^verbatim>\<open>update_event\<close> with the partial that supplies no field (the only
  partial whose \<^verbatim>\<open>update_data\<close> is empty) returns that document, with its stored
  \<open>updated_at\<close>, and the collection is left exactly as it was.
\<close>

theorem update_event_empty_partial:
  assumes "is_valid B event_id" and "unique_ids c"
    and "d \<in> set c" and "doc_id d = ObjectId B event_id" and "document.is_active d = Some True"
  shows "update_event B now c event_id no_update = (Inr (event_helper B (Some d)), c) \<and>
         (\<exists>e. event_helper B (Some d) = Some e \<and> doc_id e = str B (doc_id d) \<and>
              updated_at e = updated_at d \<and> created_at e = created_at d) \<and>
         (update_data_empty u \<longleftrightarrow> u = no_update)"
proof -
  have "update_data_empty no_update" by (simp add: update_data_empty_iff)
  with update_event_found [OF assms, of now no_update]
  have "update_event B now c event_id no_update = (Inr (event_helper B (Some d)), c)" by simp
  moreover have "\<exists>e. event_helper B (Some d) = Some e \<and> doc_id e = str B (doc_id d) \<and>
              updated_at e = updated_at d \<and> created_at e = created_at d"
    by (simp add: event_helper_def)
  ultimately show ?thesis using update_data_empty_iff [of u] by blast
qed

text \<open>
  An empty update of the stored sample event, with the clock at 2000, returns the event
  with its \<open>updated_at\<close> of 1001 and leaves the collection as it was.
\<close>

theorem update_event_empty_partial_witness:
  "update_event hex24 2000 [sample_doc ''507f1f77bcf86cd799439011'']
     ''507f1f77bcf86cd799439011'' no_update =
     (Inr (Some (sample_doc ''507f1f77bcf86cd799439011'')),
      [sample_doc ''507f1f77bcf86cd799439011'']) \<and>
   updated_at (sample_doc ''507f1f77bcf86cd799439011'') = 1001"
proof -
  let ?i = "''507f1f77bcf86cd799439011''"
  have valid: "is_valid hex24 ?i" by (simp add: hex24_def)
  have oid: "ObjectId hex24 ?i = ?i" by (simp add: hex24_def lower_def lower_char_def isupper_def)
  have u: "unique_ids [sample_doc ?i]" by (simp add: unique_ids_def)
  have m: "sample_doc ?i \<in> set [sample_doc ?i]" by simp
  have i: "doc_id (sample_doc ?i) = ObjectId hex24 ?i" unfolding oid by (simp add: sample_doc_def)
  have a: "document.is_active (sample_doc ?i) = Some True" by (simp add: sample_doc_def)
  have h: "event_helper hex24 (Some (sample_doc ?i)) = Some (sample_doc ?i)"
    by (simp add: event_helper_def hex24_def sample_doc_def)
  from update_event_empty_partial [OF valid u m i a, of 2000]
  have "update_event hex24 2000 [sample_doc ?i] ?i no_update =
          (Inr (event_helper hex24 (Some (sample_doc ?i))), [sample_doc ?i])"
    by blast
  then show ?thesis unfolding h by (simp add: sample_doc_def)
qed

lemma update_event_conflict_needs_title_or_date:
  assumes "EventUpdate.title u = Unset" and "EventUpdate.date u = Unset"
  shows "fst (update_event B now c event_id u) \<noteq> Inl Conflict"
  using assms
  by (simp add: update_event_def Let_def split: option.splits prod.splits)

text \<open>
  Claim C3. Let the identifier be well-formed and name an active document \<open>d\<close> of a
  collection with unique identifiers. If the partial supplies \<open>title\<close> or \<open>date\<close>, then
  \<^verbatim>\<open>update_event\<close> fails with \<open>Conflict\<close>, leaving the collection unchanged, exactly when
  some active document with a different identifier has the effective pair: the supplied
  title, or the stored one if none is supplied, and likewise the date. A partial that
  supplies neither \<open>title\<close> nor \<open>date\<close> never ends in \<open>Conflict\<close>, whatever the
  identifier and the collection.
\<close>

theorem update_event_uniqueness:
  "(is_valid B event_id \<and> unique_ids c \<and> d \<in> set c \<and> doc_id d = ObjectId B event_id \<and>
    document.is_active d = Some True \<and>
    (EventUpdate.title u \<noteq> Unset \<or> EventUpdate.date u \<noteq> Unset) \<longrightarrow>
      (fst (update_event B now c event_id u) = Inl Conflict \<longleftrightarrow>
         (\<exists>x \<in> set c.
            doc_id x \<noteq> ObjectId B event_id \<and> document.is_active x = Some True \<and>
            document.title x =
              (case EventUpdate.title u of Unset \<Rightarrow> document.title d | Supplied v \<Rightarrow> v) \<and>
            document.date x =
              (case EventUpdate.date u of
                 Unset \<Rightarrow> document.date d
               | Supplied v \<Rightarrow> map_option to_utc v))) \<and>
      (fst (update_event B now c event_id u) = Inl Conflict \<longrightarrow>
         snd (update_event B now c event_id u) = c)) \<and>
   (EventUpdate.title u = Unset \<and> EventUpdate.date u = Unset \<longrightarrow>
      fst (update_event B now c event_id u) \<noteq> Inl Conflict)"
proof -
  have 1: "(fst (update_event B now c event_id u) = Inl Conflict \<longleftrightarrow>
         (\<exists>x \<in> set c.
            doc_id x \<noteq> ObjectId B event_id \<and> document.is_active x = Some True \<and>
            document.title x =
              (case EventUpdate.title u of Unset \<Rightarrow> document.title d | Supplied v \<Rightarrow> v) \<and>
            document.date x =
              (case EventUpdate.date u of
                 Unset \<Rightarrow> document.date d
               | Supplied v \<Rightarrow> map_option to_utc v))) \<and>
      (fst (update_event B now c event_id u) = Inl Conflict \<longrightarrow>
         snd (update_event B now c event_id u) = c)"
    if h: "is_valid B event_id" "unique_ids c" "d \<in> set c" "doc_id d = ObjectId B event_id"
      "document.is_active d = Some True"
      and td: "EventUpdate.title u \<noteq> Unset \<or> EventUpdate.date u \<noteq> Unset"
  proof -
    from td have ne: "\<not> update_data_empty u" by (auto simp: update_data_empty_def)
    have t: "title_date_taken (ObjectId B event_id) u d c \<longleftrightarrow>
         (\<exists>x \<in> set c.
            doc_id x \<noteq> ObjectId B event_id \<and> document.is_active x = Some True \<and>
            document.title x =
              (case EventUpdate.title u of Unset \<Rightarrow> document.title d | Supplied v \<Rightarrow> v) \<and>
            document.date x =
              (case EventUpdate.date u of
                 Unset \<Rightarrow> document.date d
               | Supplied v \<Rightarrow> map_option to_utc v))"
      unfolding title_date_taken_def by blast
    show ?thesis
      unfolding t [symmetric] update_event_found [OF h] using ne td by simp
  qed
  show ?thesis
    using 1 update_event_conflict_needs_title_or_date [of u B now c event_id] by blast
qed

text \<open>
  With two active copies of the sample event under different identifiers: renaming the
  first to the title it shares with the second is a \<open>Conflict\<close>, renaming it to a new
  title is not, and changing only its capacity is not.
\<close>

theorem update_event_uniqueness_witness:
  "fst (update_event hex24 2000
          [sample_doc ''507f1f77bcf86cd799439011'', sample_doc ''507f1f77bcf86cd799439012'']
          ''507f1f77bcf86cd799439011''
          (no_update\<lparr>EventUpdate.title := Supplied (Some ''Test Conference 2025'')\<rparr>))
     = Inl Conflict \<and>
   fst (update_event hex24 2000
          [sample_doc ''507f1f77bcf86cd799439011'', sample_doc ''507f1f77bcf86cd799439012'']
          ''507f1f77bcf86cd799439011''
          (no_update\<lparr>EventUpdate.title := Supplied (Some ''Updated Conference 2025'')\<rparr>))
     \<noteq> Inl Conflict \<and>
   fst (update_event hex24 2000
          [sample_doc ''507f1f77bcf86cd799439011'', sample_doc ''507f1f77bcf86cd799439012'']
          ''507f1f77bcf86cd799439011''
          (no_update\<lparr>EventUpdate.capacity := Supplied (Some 50)\<rparr>))
     \<noteq> Inl Conflict"
proof -
  let ?i = "''507f1f77bcf86cd799439011''"
  let ?j = "''507f1f77bcf86cd799439012''"
  let ?c = "[sample_doc ?i, sample_doc ?j]"
  have valid: "is_valid hex24 ?i" by (simp add: hex24_def)
  have oid: "ObjectId hex24 ?i = ?i" by (simp add: hex24_def lower_def lower_char_def isupper_def)
  have u: "unique_ids ?c" by (simp add: unique_ids_def sample_doc_def)
  have m: "sample_doc ?i \<in> set ?c" by simp
  have i: "doc_id (sample_doc ?i) = ObjectId hex24 ?i" unfolding oid by (simp add: sample_doc_def)
  have a: "document.is_active (sample_doc ?i) = Some True" by (simp add: sample_doc_def)
  have 1: "fst (update_event hex24 2000 ?c ?i
              (no_update\<lparr>EventUpdate.title := Supplied (Some ''Test Conference 2025'')\<rparr>))
           = Inl Conflict"
    using update_event_uniqueness
            [of hex24 ?i ?c "sample_doc ?i"
                "no_update\<lparr>EventUpdate.title := Supplied (Some ''Test Conference 2025'')\<rparr>" 2000]
      valid u m i a
    by (simp add: oid no_update_def sample_doc_def)
  have 2: "fst (update_event hex24 2000 ?c ?i
              (no_update\<lparr>EventUpdate.title := Supplied (Some ''Updated Conference 2025'')\<rparr>))
           \<noteq> Inl Conflict"
    using update_event_uniqueness
            [of hex24 ?i ?c "sample_doc ?i"
                "no_update\<lparr>EventUpdate.title := Supplied (Some ''Updated Conference 2025'')\<rparr>" 2000]
      valid u m i a
    by (simp add: oid no_update_def sample_doc_def)
  have 3: "fst (update_event hex24 2000 ?c ?i
              (no_update\<lparr>EventUpdate.capacity := Supplied (Some 50)\<rparr>))
           \<noteq> Inl Conflict"
    using update_event_uniqueness
            [of hex24 ?i ?c "sample_doc ?i"
                "no_update\<lparr>EventUpdate.capacity := Supplied (Some 50)\<rparr>" 2000]
    by (simp add: no_update_def)
  from 1 2 3 show ?thesis by blast
qed

lemma update_event_applied:
  assumes h: "is_valid B event_id" "unique_ids c" "d \<in> set c" "doc_id d = ObjectId B event_id"
      "document.is_active d = Some True"
    and ne: "\<not> update_data_empty u"
    and ok: "update_event B now c event_id u = (Inr r, c')"
  shows "r = event_helper B (Some (set_update_data u now d)) \<and>
         c' = map (\<lambda>x. if doc_id x = ObjectId B event_id then set_update_data u now x else x) c"
  using ok ne unfolding update_event_found [OF h] by (simp split: if_splits)

lemma validate_is_active_only:
  "validate_EventUpdate now email (no_update\<lparr>EventUpdate.is_active := Supplied v\<rparr>) =
     Inr (no_update\<lparr>EventUpdate.is_active := Supplied v\<rparr>)"
  by (simp add: validate_EventUpdate_def no_update_def supplied_def)

text \<open>
  Claim C10. The update schema accepts a partial that supplies only \<open>is_active\<close>, and
  \<^verbatim>\<open>update_event\<close> writes a supplied boolean into the stored document. For a well-formed
  identifier of an active document \<open>d\<close> (identifiers unique): whenever the update of a
  partial with \<open>is_active = b\<close> succeeds, the returned entity and the stored document have
  \<open>is_active = b\<close>; the partial that supplies only \<open>is_active\<close> always succeeds, changing
  \<open>is_active\<close> and \<open>updated_at\<close> of that document and nothing else; with \<open>b = False\<close> it
  leaves the collection that \<^verbatim>\<open>delete_event\<close> leaves, and the event can
  no longer be fetched.
\<close>

theorem update_event_writes_is_active:
  assumes h: "is_valid B event_id" "unique_ids c" "d \<in> set c" "doc_id d = ObjectId B event_id"
      "document.is_active d = Some True"
  shows
    "validate_EventUpdate t email (no_update\<lparr>EventUpdate.is_active := Supplied (Some b)\<rparr>) =
       Inr (no_update\<lparr>EventUpdate.is_active := Supplied (Some b)\<rparr>) \<and>
     (EventUpdate.is_active u = Supplied (Some b) \<and>
      update_event B now c event_id u = (Inr r, c') \<longrightarrow>
        (\<exists>e. r = Some e \<and> document.is_active e = Some b) \<and>
        (\<exists>x \<in> set c'. doc_id x = ObjectId B event_id \<and> document.is_active x = Some b)) \<and>
     update_event B now c event_id (no_update\<lparr>EventUpdate.is_active := Supplied (Some b)\<rparr>) =
       (Inr (event_helper B (Some (d\<lparr>document.is_active := Some b, updated_at := now\<rparr>))),
        map (\<lambda>x. if doc_id x = ObjectId B event_id
                  then x\<lparr>document.is_active := Some b, updated_at := now\<rparr> else x) c) \<and>
     snd (update_event B now c event_id (no_update\<lparr>EventUpdate.is_active := Supplied (Some False)\<rparr>))
       = snd (delete_event B now c event_id) \<and>
     get_event_by_id B
       (snd (update_event B now c event_id
               (no_update\<lparr>EventUpdate.is_active := Supplied (Some False)\<rparr>))) event_id
       = Inl NotFound"
proof -
  let ?i = "ObjectId B event_id"
  let ?only = "\<lambda>b. no_update\<lparr>EventUpdate.is_active := Supplied (Some b)\<rparr>"
  have ne: "\<not> update_data_empty (?only b)" for b
    by (simp add: update_data_empty_def)
  have s: "set_update_data (?only b) now x = x\<lparr>document.is_active := Some b, updated_at := now\<rparr>"
    for b and x :: "'a document"
    by (simp add: set_update_data_def no_update_def dict_get_def)
  have nt: "\<not> ((EventUpdate.title (?only b) \<noteq> Unset \<or> EventUpdate.date (?only b) \<noteq> Unset) \<and>
              title_date_taken ?i (?only b) d c)" for b
    by (simp add: no_update_def)
  have enc: "update_data_encodable (?only b)" for b
    by (simp add: update_data_encodable_def no_update_def)
  have only: "update_event B now c event_id (?only b) =
      (Inr (event_helper B (Some (d\<lparr>document.is_active := Some b, updated_at := now\<rparr>))),
       map (\<lambda>x. if doc_id x = ?i then x\<lparr>document.is_active := Some b, updated_at := now\<rparr> else x) c)"
    for b
    unfolding update_event_found [OF h] using ne [of b] nt [of b] enc [of b] by (simp add: s)
  have 1: "validate_EventUpdate t email (?only b) = Inr (?only b)"
    by (rule validate_is_active_only)
  have 2: "(\<exists>e. r = Some e \<and> document.is_active e = Some b) \<and>
        (\<exists>x \<in> set c'. doc_id x = ?i \<and> document.is_active x = Some b)"
    if a: "EventUpdate.is_active u = Supplied (Some b)"
      and ok: "update_event B now c event_id u = (Inr r, c')"
  proof -
    from a have "\<not> update_data_empty u" by (auto simp: update_data_empty_def)
    from update_event_applied [OF h this ok]
    have r: "r = event_helper B (Some (set_update_data u now d))"
      and c': "c' = map (\<lambda>x. if doc_id x = ?i then set_update_data u now x else x) c"
      by simp_all
    have b: "document.is_active (set_update_data u now d) = Some b"
      using a by (simp add: set_update_data_def dict_get_def)
    from r b have "\<exists>e. r = Some e \<and> document.is_active e = Some b"
      by (simp add: event_helper_def)
    moreover from h(3,4) have "set_update_data u now d \<in> set c'" unfolding c' by force
    with b have "\<exists>x \<in> set c'. doc_id x = ?i \<and> document.is_active x = Some b"
      using h(4) set_update_data_doc_id [of u now d] by auto
    ultimately show ?thesis by blast
  qed
  have del: "delete_event B now c event_id =
      (Inr True, map (\<lambda>x. if doc_id x = ?i
                           then x\<lparr>document.is_active := Some False, updated_at := now\<rparr> else x) c)"
    using h by (rule delete_event_active)
  have 4: "snd (update_event B now c event_id (?only False)) = snd (delete_event B now c event_id)"
    unfolding only del by simp
  have "\<not> (doc_id x = ?i \<and> document.is_active x = Some True)"
    if "x \<in> set (snd (update_event B now c event_id (?only False)))" for x
    using that unfolding only by auto
  then have "find_one (\<lambda>x. doc_id x = ?i \<and> document.is_active x = Some True)
               (snd (update_event B now c event_id (?only False))) = None"
    by (simp add: find_one_None)
  with h(1) have 5: "get_event_by_id B (snd (update_event B now c event_id (?only False))) event_id
       = Inl NotFound"
    by (simp add: get_event_by_id_def)
  from 1 2 only [of b] 4 5 show ?thesis by blast
qed

text \<open>
  Updating the stored sample event with only \<open>is_active = False\<close> returns it inactive and
  stores it so, after which it is not found; with only \<open>is_active = True\<close> the value
  \<open>True\<close> is written and the timestamp is bumped.
\<close>

theorem update_event_writes_is_active_witness:
  "update_event hex24 2000 [sample_doc ''507f1f77bcf86cd799439011''] ''507f1f77bcf86cd799439011''
     (no_update\<lparr>EventUpdate.is_active := Supplied (Some False)\<rparr>) =
     (Inr (Some ((sample_doc ''507f1f77bcf86cd799439011'')
                   \<lparr>document.is_active := Some False, updated_at := 2000\<rparr>)),
      [(sample_doc ''507f1f77bcf86cd799439011'')
         \<lparr>document.is_active := Some False, updated_at := 2000\<rparr>]) \<and>
   get_event_by_id hex24
     [(sample_doc ''507f1f77bcf86cd799439011'')\<lparr>document.is_active := Some False, updated_at := 2000\<rparr>]
     ''507f1f77bcf86cd799439011'' = Inl NotFound \<and>
   update_event hex24 2000 [sample_doc ''507f1f77bcf86cd799439011''] ''507f1f77bcf86cd799439011''
     (no_update\<lparr>EventUpdate.is_active := Supplied (Some True)\<rparr>) =
     (Inr (Some ((sample_doc ''507f1f77bcf86cd799439011'')
                   \<lparr>document.is_active := Some True, updated_at := 2000\<rparr>)),
      [(sample_doc ''507f1f77bcf86cd799439011'')
         \<lparr>document.is_active := Some True, updated_at := 2000\<rparr>])"
proof -
  let ?i = "''507f1f77bcf86cd799439011''"
  let ?c = "[sample_doc ?i]"
  let ?only = "\<lambda>b. no_update\<lparr>EventUpdate.is_active := Supplied (Some b)\<rparr>"
  let ?d = "\<lambda>b. (sample_doc ?i)\<lparr>document.is_active := Some b, updated_at := 2000\<rparr>"
  have valid: "is_valid hex24 ?i" by (simp add: hex24_def)
  have oid: "ObjectId hex24 ?i = ?i" by (simp add: hex24_def lower_def lower_char_def isupper_def)
  have u: "unique_ids ?c" by (simp add: unique_ids_def)
  have m: "sample_doc ?i \<in> set ?c" by simp
  have i: "doc_id (sample_doc ?i) = ObjectId hex24 ?i" unfolding oid by (simp add: sample_doc_def)
  have a: "document.is_active (sample_doc ?i) = Some True" by (simp add: sample_doc_def)
  have mp: "map (\<lambda>x. if doc_id x = ObjectId hex24 ?i
                      then x\<lparr>document.is_active := Some b, updated_at := 2000\<rparr> else x) ?c = [?d b]"
    for b
    by (simp add: oid sample_doc_def)
  note w = update_event_writes_is_active [OF valid u m i a, where now = 2000]
  have eh: "event_helper hex24 (Some x) = Some x" for x
    by (cases x) (simp add: event_helper_def hex24_def)
  have 1: "update_event hex24 2000 ?c ?i (?only False) = (Inr (Some (?d False)), [?d False])"
    using w [where b = False] unfolding mp eh by blast
  have 3: "update_event hex24 2000 ?c ?i (?only True) = (Inr (Some (?d True)), [?d True])"
    using w [where b = True] unfolding mp eh by blast
  have "get_event_by_id hex24 (snd (update_event hex24 2000 ?c ?i (?only False))) ?i = Inl NotFound"
    using w by blast
  then have 2: "get_event_by_id hex24 [?d False] ?i = Inl NotFound" unfolding 1 by simp
  from 1 2 3 show ?thesis by blast
qed

subsection \<open>Listing events\<close>

lemma list_query_iff:
  "list_query date_from date_to tags' d \<longleftrightarrow>
     document.is_active d = Some True \<and>
     (date_from = None \<and> date_to = None \<or>
      (\<exists>t. document.date d = Some t \<and> (\<forall>f. date_from = Some f \<longrightarrow> to_utc f \<le> t) \<and>
           (\<forall>f. date_to = Some f \<longrightarrow> t \<le> to_utc f))) \<and>
     (tags' = None \<or> tags' = Some [] \<or>
      (\<exists>ts wanted. document.tags d = Some ts \<and> tags' = Some wanted \<and>
         (\<exists>x \<in> set ts. x \<in> lower ` set wanted)))"
  by (cases date_from; cases date_to; cases tags'; cases "document.date d";
      cases "document.tags d") (auto simp: list_query_def)

text \<open>
  Claim C6, amended. For \<open>page \<ge> 1\<close> and \<open>1 \<le> limit \<le> 100\<close> whose skip
  \<open>(page - 1) * limit\<close> is an integer of at most 8 bytes, \<^verbatim>\<open>get_events\<close> succeeds. The
  documents \<open>ds\<close> behind the entities it returns are the matching documents, sorted by
  ascending date, without the first \<open>(page - 1) * limit\<close> and cut after \<open>limit\<close>: at most
  \<open>limit\<close> of them, in ascending date order, all active and matching the filter. A
  document matches when it is active, its date lies in the range given by \<open>date_from\<close>
  and \<open>date_to\<close>, if any is given, and it carries the lowercase form of one of the given
  tags, if any is given. The total is the number of all matching documents, whatever
  \<open>page\<close> and \<open>limit\<close> are, and when nothing matches the result is the empty list with
  total 0.
\<close>

theorem get_events_page:
  fixes c :: "'i collection"
  defines "matching \<equiv> \<lambda>df dt tg. filter (list_query df dt tg) c"
  defines "ds \<equiv> \<lambda>page limit df dt tg.
             take (nat limit) (drop (nat ((page - 1) * limit)) (sort_key document.date (matching df dt tg)))"
  assumes "1 \<le> page" and "1 \<le> limit" and "limit \<le> 100" and "(page - 1) * limit < 2 ^ 63"
  shows
    "get_events B c page limit date_from date_to tags' =
       Inr (map (\<lambda>d. event_helper B (Some d)) (ds page limit date_from date_to tags'),
            int (length (matching date_from date_to tags'))) \<and>
     length (map (\<lambda>d. event_helper B (Some d)) (ds page limit date_from date_to tags')) \<le> nat limit \<and>
     nat limit \<le> 100 \<and>
     sorted (map document.date (sort_key document.date (matching date_from date_to tags'))) \<and>
     set (sort_key document.date (matching date_from date_to tags')) =
       {d \<in> set c. list_query date_from date_to tags' d} \<and>
     length (sort_key document.date (matching date_from date_to tags')) =
       length (matching date_from date_to tags') \<and>
     sorted (map document.date (ds page limit date_from date_to tags')) \<and>
     set (ds page limit date_from date_to tags') \<subseteq>
       {d \<in> set c. document.is_active d = Some True \<and> list_query date_from date_to tags' d} \<and>
     (matching date_from date_to tags' = [] \<longrightarrow>
        get_events B c page limit date_from date_to tags' = Inr ([], 0)) \<and>
     (\<forall>d. list_query date_from date_to tags' d \<longleftrightarrow>
        document.is_active d = Some True \<and>
        (date_from = None \<and> date_to = None \<or>
         (\<exists>t. document.date d = Some t \<and> (\<forall>f. date_from = Some f \<longrightarrow> to_utc f \<le> t) \<and>
              (\<forall>f. date_to = Some f \<longrightarrow> t \<le> to_utc f))) \<and>
        (tags' = None \<or> tags' = Some [] \<or>
         (\<exists>ts wanted. document.tags d = Some ts \<and> tags' = Some wanted \<and>
            (\<exists>x \<in> set ts. x \<in> lower ` set wanted))))"
proof -
  let ?m = "matching date_from date_to tags'"
  let ?s = "sort_key document.date ?m"
  let ?ds = "ds page limit date_from date_to tags'"
  from assms(3,4) have "0 \<le> (page - 1) * limit" by (intro mult_nonneg_nonneg) simp_all
  with assms(4,5,6) have ok: "\<not> ((page - 1) * limit < 0 \<or> limit < 0)"
    "\<not> (\<not> int64 ((page - 1) * limit) \<or> \<not> int64 limit)"
    by (simp_all add: int64_def)
  have a1: "get_events B c page limit date_from date_to tags' =
       Inr (map (\<lambda>d. event_helper B (Some d)) ?ds, int (length ?m))"
    using ok by (simp add: get_events_def Let_def count_documents_def ds_def matching_def)
  have a2: "length (map (\<lambda>d. event_helper B (Some d)) ?ds) \<le> nat limit"
    by (simp add: ds_def)
  have a3: "nat limit \<le> 100" using assms(5) by simp
  have a4: "sorted (map document.date ?s)" by (rule sorted_sort_key)
  have a5: "set ?s = {d \<in> set c. list_query date_from date_to tags' d}"
    by (auto simp: matching_def)
  have a6: "length ?s = length ?m" by simp
  have a7: "sorted (map document.date ?ds)"
    unfolding ds_def take_map [symmetric] drop_map [symmetric]
    using a4 by (intro sorted_wrt_take sorted_wrt_drop)
  have "set ?ds \<subseteq> set ?s"
    unfolding ds_def by (meson set_take_subset set_drop_subset subset_trans)
  then have a8: "set ?ds \<subseteq>
       {d \<in> set c. document.is_active d = Some True \<and> list_query date_from date_to tags' d}"
    unfolding a5 by (auto simp: list_query_def)
  have a9: "get_events B c page limit date_from date_to tags' = Inr ([], 0)" if "?m = []"
    unfolding a1 using that by (simp add: ds_def)
  from a1 a2 a3 a4 a5 a6 a7 a8 a9 list_query_iff [of date_from date_to tags']
  show ?thesis by blast
qed

text \<open>
  A collection with a later event tagged \<open>rust\<close>, the sample event and an inactive
  event, in this order: page 1 of size 1 is the sample event, page 2 of size 1 is the
  later event, both with total 2; from the instant 6000 on only the later event is
  listed; the tag \<open>PYTHON\<close> selects only the sample event; listing an empty collection
  gives the empty list and total 0.
\<close>

theorem get_events_page_witness:
  "get_events hex24
     [(sample_doc ''507f1f77bcf86cd799439012'')
        \<lparr>document.date := Some 7000, document.tags := Some [''rust'']\<rparr>,
      sample_doc ''507f1f77bcf86cd799439011'',
      (sample_doc ''507f1f77bcf86cd799439013'')\<lparr>document.is_active := Some False\<rparr>]
     1 1 None None None =
     Inr ([Some (sample_doc ''507f1f77bcf86cd799439011'')], 2) \<and>
   get_events hex24
     [(sample_doc ''507f1f77bcf86cd799439012'')
        \<lparr>document.date := Some 7000, document.tags := Some [''rust'']\<rparr>,
      sample_doc ''507f1f77bcf86cd799439011'',
      (sample_doc ''507f1f77bcf86cd799439013'')\<lparr>document.is_active := Some False\<rparr>]
     2 1 None None None =
     Inr ([Some ((sample_doc ''507f1f77bcf86cd799439012'')
                   \<lparr>document.date := Some 7000, document.tags := Some [''rust'']\<rparr>)], 2) \<and>
   get_events hex24
     [(sample_doc ''507f1f77bcf86cd799439012'')
        \<lparr>document.date := Some 7000, document.tags := Some [''rust'']\<rparr>,
      sample_doc ''507f1f77bcf86cd799439011'',
      (sample_doc ''507f1f77bcf86cd799439013'')\<lparr>document.is_active := Some False\<rparr>]
     1 10 (Some \<lparr>wall = 6000, tzinfo = None\<rparr>) None None =
     Inr ([Some ((sample_doc ''507f1f77bcf86cd799439012'')
                   \<lparr>document.date := Some 7000, document.tags := Some [''rust'']\<rparr>)], 1) \<and>
   get_events hex24
     [(sample_doc ''507f1f77bcf86cd799439012'')
        \<lparr>document.date := Some 7000, document.tags := Some [''rust'']\<rparr>,
      sample_doc ''507f1f77bcf86cd799439011'',
      (sample_doc ''507f1f77bcf86cd799439013'')\<lparr>document.is_active := Some False\<rparr>]
     1 10 None None (Some [''PYTHON'']) =
     Inr ([Some (sample_doc ''507f1f77bcf86cd799439011'')], 1) \<and>
   get_events hex24 [] 1 5 None None None = Inr ([], 0)"
proof -
  let ?later = "(sample_doc ''507f1f77bcf86cd799439012'')
                  \<lparr>document.date := Some 7000, document.tags := Some [''rust'']\<rparr>"
  let ?sample = "sample_doc ''507f1f77bcf86cd799439011''"
  let ?gone = "(sample_doc ''507f1f77bcf86cd799439013'')\<lparr>document.is_active := Some False\<rparr>"
  let ?c = "[?later, ?sample, ?gone]"
  let ?from = "Some \<lparr>wall = 6000, tzinfo = None\<rparr>"
  have eh: "event_helper hex24 (Some x) = Some x" for x
    by (cases x) (simp add: event_helper_def hex24_def)
  have lp: "lower ''PYTHON'' = ''python''" by code_simp
  have f: "filter (list_query None None None) ?c = [?later, ?sample]"
    by (simp add: list_query_def sample_doc_def)
  have fd: "filter (list_query ?from None None) ?c = [?later]"
    by (simp add: list_query_def sample_doc_def to_utc_def)
  have ft: "filter (list_query None None (Some [''PYTHON''])) ?c = [?sample]"
    by (simp add: list_query_def sample_doc_def lp)
  have s: "sort_key document.date [?later, ?sample] = [?sample, ?later]"
    by (simp add: sample_doc_def)
  have 1: "get_events hex24 ?c 1 1 None None None = Inr ([Some ?sample], 2)"
    using get_events_page [of 1 1 hex24 ?c None None None, THEN conjunct1] unfolding f s eh by simp
  have 2: "get_events hex24 ?c 2 1 None None None = Inr ([Some ?later], 2)"
    using get_events_page [of 2 1 hex24 ?c None None None, THEN conjunct1] unfolding f s eh by simp
  have 3: "get_events hex24 ?c 1 10 ?from None None = Inr ([Some ?later], 1)"
    using get_events_page [of 1 10 hex24 ?c ?from None None, THEN conjunct1] unfolding fd eh by simp
  have 4: "get_events hex24 ?c 1 10 None None (Some [''PYTHON'']) = Inr ([Some ?sample], 1)"
    using get_events_page [of 1 10 hex24 ?c None None "Some [''PYTHON'']", THEN conjunct1] unfolding ft eh by simp
  have 5: "get_events hex24 [] 1 5 None None None = Inr ([], 0)"
    using get_events_page [of 1 5 hex24 "[]" None None None, THEN conjunct1] by simp
  from 1 2 3 4 5 show ?thesis by blast
qed

text \<open>
  The claim as first stated promises a list for every \<open>page \<ge> 1\<close>. It fails for the
  page \<open>2 ^ 63 + 1\<close> with the limit 1: the skip \<open>2 ^ 63\<close> is beyond 8 bytes, and
  listing a collection that holds the sample event raises \<^verbatim>\<open>OverflowError\<close>.
\<close>

theorem get_events_overflow_counterexample:
  "get_events hex24 [sample_doc ''507f1f77bcf86cd799439011''] (2 ^ 63 + 1) 1 None None None =
     Inl OverflowError"
  by (simp add: get_events_def Let_def int64_def)

subsection \<open>A title supplied as null\<close>

lemma validate_EventUpdate_title_only:
  "validate_EventUpdate now email (no_update\<lparr>EventUpdate.title := Supplied v\<rparr>) =
     (case optional (constrained_str 1 (Some 200)) v of
        Invalid \<Rightarrow> Inl [''title'']
      | Valid w \<Rightarrow> Inr (no_update\<lparr>EventUpdate.title := Supplied w\<rparr>))"
  by (simp add: validate_EventUpdate_def no_update_def supplied_def errors_of_def
           split: checked.splits)

text \<open>
  Claim C4. The claim has the rules of the schema applied to every field an update
  request supplies; for the title the rule is a non-empty string of at most 200
  characters, and \<^verbatim>\<open>EventCreate\<close> and \<^verbatim>\<open>EventResponse\<close> declare the title a string.
  The update schema does apply the rule to a supplied string: the empty title is
  refused. A title supplied as null is accepted, because the rule sits on the string
  alternative of \<^verbatim>\<open>str | None\<close>; the key \<open>title\<close> is then in \<^verbatim>\<open>update_data\<close>. For a
  well-formed identifier of an active document \<open>d\<close> (identifiers unique), when no other
  active document without a title has the date of \<open>d\<close>, \<^verbatim>\<open>update_event\<close> with that
  request writes null into the title of the stored document, changes \<open>updated_at\<close> and
  nothing else, and returns the document without a title.
\<close>

theorem update_event_null_title:
  assumes h: "is_valid B event_id" "unique_ids c" "d \<in> set c" "doc_id d = ObjectId B event_id"
      "document.is_active d = Some True"
    and free: "\<not> (\<exists>x \<in> set c. document.title x = None \<and> document.date x = document.date d \<and>
                   document.is_active x = Some True \<and> doc_id x \<noteq> ObjectId B event_id)"
  shows
    "validate_EventUpdate t email (no_update\<lparr>EventUpdate.title := Supplied (Some [])\<rparr>) =
       Inl [''title''] \<and>
     validate_EventUpdate t email (no_update\<lparr>EventUpdate.title := Supplied None\<rparr>) =
       Inr (no_update\<lparr>EventUpdate.title := Supplied None\<rparr>) \<and>
     update_event B now c event_id (no_update\<lparr>EventUpdate.title := Supplied None\<rparr>) =
       (Inr (event_helper B (Some (d\<lparr>document.title := None, updated_at := now\<rparr>))),
        map (\<lambda>x. if doc_id x = ObjectId B event_id
                  then x\<lparr>document.title := None, updated_at := now\<rparr> else x) c) \<and>
     (\<exists>x \<in> set (snd (update_event B now c event_id
                         (no_update\<lparr>EventUpdate.title := Supplied None\<rparr>))).
        doc_id x = ObjectId B event_id \<and> document.title x = None)"
proof -
  let ?i = "ObjectId B event_id"
  let ?u = "no_update\<lparr>EventUpdate.title := Supplied None\<rparr>"
  let ?w = "\<lambda>x. x\<lparr>document.title := None, updated_at := now\<rparr>"
  have ne: "\<not> update_data_empty ?u" by (simp add: update_data_empty_def)
  have nt: "\<not> title_date_taken ?i ?u d c"
    using free by (simp add: title_date_taken_def no_update_def)
  have enc: "update_data_encodable ?u"
    by (simp add: update_data_encodable_def no_update_def)
  have s: "set_update_data ?u now x = ?w x" for x :: "'a document"
    by (simp add: set_update_data_def no_update_def dict_get_def)
  have 1: "validate_EventUpdate t email (no_update\<lparr>EventUpdate.title := Supplied (Some [])\<rparr>) =
      Inl [''title'']"
    unfolding validate_EventUpdate_title_only by (simp add: optional_def constrained_str_def)
  have 2: "validate_EventUpdate t email ?u = Inr ?u"
    unfolding validate_EventUpdate_title_only by (simp add: optional_def)
  have 3: "update_event B now c event_id ?u =
      (Inr (event_helper B (Some (?w d))), map (\<lambda>x. if doc_id x = ?i then ?w x else x) c)"
    unfolding update_event_found [OF h] using ne nt enc by (simp add: s)
  have "?w d \<in> set (map (\<lambda>x. if doc_id x = ?i then ?w x else x) c)"
    using h(3,4) by (force simp: image_iff)
  then have 4: "\<exists>x \<in> set (snd (update_event B now c event_id ?u)).
      doc_id x = ?i \<and> document.title x = None"
    unfolding 3 using h(4) by (intro bexI [of _ "?w d"]) simp_all
  from 1 2 3 4 show ?thesis by blast
qed

text \<open>
  On the stored sample event: the request \<^verbatim>\<open>{"title": null}\<close> passes validation, and
  the update stores and returns the event with the title null.
\<close>

theorem update_event_null_title_witness:
  "validate_EventUpdate 2000 Valid (no_update\<lparr>EventUpdate.title := Supplied (Some [])\<rparr>) =
     Inl [''title''] \<and>
   validate_EventUpdate 2000 Valid (no_update\<lparr>EventUpdate.title := Supplied None\<rparr>) =
     Inr (no_update\<lparr>EventUpdate.title := Supplied None\<rparr>) \<and>
   update_event hex24 2000 [sample_doc ''507f1f77bcf86cd799439011''] ''507f1f77bcf86cd799439011''
     (no_update\<lparr>EventUpdate.title := Supplied None\<rparr>) =
     (Inr (Some ((sample_doc ''507f1f77bcf86cd799439011'')
                   \<lparr>document.title := None, updated_at := 2000\<rparr>)),
      [(sample_doc ''507f1f77bcf86cd799439011'')\<lparr>document.title := None, updated_at := 2000\<rparr>]) \<and>
   document.title
     ((sample_doc ''507f1f77bcf86cd799439011'')\<lparr>document.title := None, updated_at := 2000\<rparr>) =
     None"
proof -
  let ?i = "''507f1f77bcf86cd799439011''"
  let ?c = "[sample_doc ?i]"
  let ?u = "no_update\<lparr>EventUpdate.title := Supplied None\<rparr>"
  let ?d = "(sample_doc ?i)\<lparr>document.title := None, updated_at := 2000\<rparr>"
  have valid: "is_valid hex24 ?i" by (simp add: hex24_def)
  have oid: "ObjectId hex24 ?i = ?i" by (simp add: hex24_def lower_def lower_char_def isupper_def)
  have u: "unique_ids ?c" by (simp add: unique_ids_def)
  have m: "sample_doc ?i \<in> set ?c" by simp
  have i: "doc_id (sample_doc ?i) = ObjectId hex24 ?i" unfolding oid by (simp add: sample_doc_def)
  have a: "document.is_active (sample_doc ?i) = Some True" by (simp add: sample_doc_def)
  have free: "\<not> (\<exists>x \<in> set ?c. document.title x = None \<and>
                   document.date x = document.date (sample_doc ?i) \<and>
                   document.is_active x = Some True \<and> doc_id x \<noteq> ObjectId hex24 ?i)"
    by (simp add: sample_doc_def)
  have eh: "event_helper hex24 (Some x) = Some x" for x
    by (cases x) (simp add: event_helper_def hex24_def)
  have mp: "map (\<lambda>x. if doc_id x = ObjectId hex24 ?i
                      then x\<lparr>document.title := None, updated_at := 2000\<rparr> else x) ?c = [?d]"
    using i by simp
  note w = update_event_null_title [OF valid u m i a free, of 2000 Valid 2000]
  from w have 1: "validate_EventUpdate 2000 Valid
      (no_update\<lparr>EventUpdate.title := Supplied (Some [])\<rparr>) = Inl [''title'']"
    by (rule conjunct1)
  from w have 2: "validate_EventUpdate 2000 Valid ?u = Inr ?u" by blast
  have 3: "update_event hex24 2000 ?c ?i ?u = (Inr (Some ?d), [?d])"
    using w unfolding mp eh by blast
  have 4: "document.title ?d = None" by simp
  from 1 2 3 4 show ?thesis by blast
qed

subsection \<open>Identifiers stay unique\<close>

text \<open>
  The service keeps the identifiers of the collection unique: the collection is empty
  at first, an insert refuses an identifier that is already there, and an update never
  changes an identifier.
\<close>

lemma update_one_doc_ids:
  assumes "\<And>x. doc_id (f x) = doc_id x"
  shows "map doc_id (fst (update_one q f c)) = map doc_id c"
  by (induction c) (simp_all add: assms split_beta)

lemma unique_ids_empty: "unique_ids []"
  by (simp add: unique_ids_def)

lemma create_event_unique_ids:
  assumes "unique_ids c"
  shows "unique_ids (snd (create_event B new_id t_created t_updated c event))"
  using assms
  by (auto simp: create_event_def insert_one_def unique_ids_def Let_def
           split: option.splits if_splits)

lemma update_event_unique_ids:
  assumes "unique_ids c"
  shows "unique_ids (snd (update_event B now c event_id u))"
proof -
  have "unique_ids (fst (update_one (\<lambda>d. doc_id d = ObjectId B event_id) (set_update_data u now) c))"
    using assms update_one_doc_ids [of "set_update_data u now" "\<lambda>d. doc_id d = ObjectId B event_id" c]
    by (simp add: unique_ids_def set_update_data_doc_id)
  then show ?thesis
    using assms by (simp add: update_event_def Let_def split_beta split: option.splits)
qed

lemma delete_event_unique_ids:
  assumes "unique_ids c"
  shows "unique_ids (snd (delete_event B now c event_id))"
proof -
  let ?q = "\<lambda>d. doc_id d = ObjectId B event_id \<and> document.is_active d = Some True"
  let ?f = "\<lambda>d. d\<lparr>document.is_active := Some False, updated_at := now\<rparr>"
  have "unique_ids (fst (update_one ?q ?f c))"
    using assms update_one_doc_ids [of ?f ?q c] by (simp add: unique_ids_def)
  then show ?thesis
    using assms by (simp add: delete_event_def split_beta)
qed

end
